theory Spec2Isabelle
  imports Main
begin

section \<open>Numbers\<close>

text \<open>
  The numbers of JavaScript are the doubles of IEEE 754. The lexer reads a run of decimal
  digits with \<open>parseInt\<close>, and the machine adds, subtracts and negates, so a number of a
  program is a double whose value is an integer, an infinity or \<open>NaN\<close>. \<open>Finite n\<close> stands
  for the double of value \<open>n\<close>, for the integers \<open>n\<close> that are doubles (\<open>isDouble\<close>). The
  negative zero is not told apart from zero: it renders as \<open>0\<close>, is \<open>=== 0\<close> and adds as
  zero, and the language has no division.
\<close>

datatype JsNumber = Finite int | Infinity | MinusInfinity | NotANumber

text \<open>The number of binary digits of a natural number.\<close>

function bitLength :: "int \<Rightarrow> nat" where
  "bitLength n = (if n \<le> 0 then 0 else Suc (bitLength (n div 2)))"
  by pat_completeness auto

termination
  by (relation "measure nat") auto

declare bitLength.simps [simp del]

text \<open>
  The rounding of an integer to a double: to 53 significant binary digits, to the nearest
  and on a tie to the even one; what reaches \<open>2 ^ 1024\<close> becomes an infinity.
  \<open>roundMagnitude\<close> rounds the absolute value.
\<close>

definition roundMagnitude :: "int \<Rightarrow> int" where
  "roundMagnitude m =
    (if bitLength m \<le> 53 then m
     else
       (let e = bitLength m - 53;
            q = m div 2 ^ e;
            r = m mod 2 ^ e;
            half = 2 ^ (e - 1)
        in (if half < r \<or> (r = half \<and> odd q) then q + 1 else q) * 2 ^ e))"

definition roundDouble :: "int \<Rightarrow> JsNumber" where
  "roundDouble i =
    (let m = roundMagnitude \<bar>i\<bar>
     in if 1024 < bitLength m then (if i < 0 then MinusInfinity else Infinity)
        else Finite (if i < 0 then - m else m))"

definition isDouble :: "int \<Rightarrow> bool" where
  "isDouble n = (roundDouble n = Finite n)"

text \<open>The operators \<open>+\<close>, unary \<open>-\<close> and binary \<open>-\<close> on numbers.\<close>

fun addNumber :: "JsNumber \<Rightarrow> JsNumber \<Rightarrow> JsNumber" where
  "addNumber (Finite a) (Finite b) = roundDouble (a + b)"
| "addNumber (Finite a) Infinity = Infinity"
| "addNumber (Finite a) MinusInfinity = MinusInfinity"
| "addNumber Infinity (Finite b) = Infinity"
| "addNumber Infinity Infinity = Infinity"
| "addNumber Infinity MinusInfinity = NotANumber"
| "addNumber MinusInfinity (Finite b) = MinusInfinity"
| "addNumber MinusInfinity Infinity = NotANumber"
| "addNumber MinusInfinity MinusInfinity = MinusInfinity"
| "addNumber NotANumber b = NotANumber"
| "addNumber a NotANumber = NotANumber"

fun negNumber :: "JsNumber \<Rightarrow> JsNumber" where
  "negNumber (Finite a) = Finite (- a)"
| "negNumber Infinity = MinusInfinity"
| "negNumber MinusInfinity = Infinity"
| "negNumber NotANumber = NotANumber"

definition subNumber :: "JsNumber \<Rightarrow> JsNumber \<Rightarrow> JsNumber" where
  "subNumber a b = addNumber a (negNumber b)"

section \<open>Tokens and syntax tree (src/lexer.ts, src/ast.ts)\<close>

text \<open>
  The token kinds of the lexer. Only \<open>plus\<close> and \<open>minus\<close> matter to the compiler; the
  parser also builds binary nodes for \<open>star\<close> and \<open>slash\<close>. The constructors carry the
  prefix \<open>T_\<close> because \<open>int\<close>, \<open>plus\<close>, \<open>eq\<close>, ... are constants of HOL.
\<close>

datatype TokenType =
    T_int | T_string | T_ident | T_const | T_def | T_print | T_plus | T_minus
  | T_star | T_slash | T_eq | T_lparen | T_rparen | T_lbrace | T_rbrace | T_comma | T_eof

text \<open>
  \<open>AstNode\<close> is the tagged union of src/ast.ts. An \<open>IdentNode\<close> in a declaration is
  represented by its name. Every child is again an \<open>AstNode\<close>, as in the source.
\<close>

datatype AstNode =
    IntLit JsNumber
  | StringLit string
  | Ident string
  | Unary TokenType AstNode
  | Binary TokenType AstNode AstNode
  | Invoke AstNode "AstNode list"
  | ValDecl string AstNode
  | FuncDecl string "string list" "AstNode list"
  | Print AstNode

fun isExpr :: "AstNode \<Rightarrow> bool" where
  "isExpr (IntLit _) = True"
| "isExpr (StringLit _) = True"
| "isExpr (Ident _) = True"
| "isExpr (Unary _ _) = True"
| "isExpr (Binary _ _ _) = True"
| "isExpr (Invoke _ _) = True"
| "isExpr (ValDecl _ _) = False"
| "isExpr (FuncDecl _ _ _) = False"
| "isExpr (Print _) = False"

section \<open>Opcodes, values and modules (src/compiler.ts)\<close>

text \<open>
  The members of the enum \<open>Opcode\<close>, with the prefix \<open>Op_\<close> (\<open>constant\<close> is a keyword
  of Isabelle, and \<open>pop\<close> is also a method of the virtual machine).
\<close>

datatype Opcode =
    Op_const0 | Op_const1 | Op_const2 | Op_constant | Op_neg | Op_add | Op_sub | Op_load | Op_store
  | Op_print | Op_invoke | Op_pop | Op_nil | Op_return

text \<open>The numeric value of each member of the enum, and the way back (a \<open>switch\<close>).\<close>

fun opnum :: "Opcode \<Rightarrow> nat" where
  "opnum Op_const0 = 0"
| "opnum Op_const1 = 1"
| "opnum Op_const2 = 2"
| "opnum Op_constant = 3"
| "opnum Op_neg = 4"
| "opnum Op_add = 5"
| "opnum Op_sub = 6"
| "opnum Op_load = 7"
| "opnum Op_store = 8"
| "opnum Op_print = 9"
| "opnum Op_invoke = 10"
| "opnum Op_pop = 11"
| "opnum Op_nil = 12"
| "opnum Op_return = 13"

definition decode :: "nat \<Rightarrow> Opcode option" where
  "decode n =
    (if n = 0 then Some Op_const0 else if n = 1 then Some Op_const1 else if n = 2 then Some Op_const2
     else if n = 3 then Some Op_constant else if n = 4 then Some Op_neg else if n = 5 then Some Op_add
     else if n = 6 then Some Op_sub else if n = 7 then Some Op_load else if n = 8 then Some Op_store
     else if n = 9 then Some Op_print else if n = 10 then Some Op_invoke else if n = 11 then Some Op_pop
     else if n = 12 then Some Op_nil else if n = 13 then Some Op_return else None)"

text \<open>\<open>opcodeMeta\<close>: the number of operands of each opcode.\<close>

fun opcodeArgs :: "Opcode \<Rightarrow> nat" where
  "opcodeArgs Op_constant = 1"
| "opcodeArgs Op_load = 1"
| "opcodeArgs Op_store = 1"
| "opcodeArgs Op_invoke = 1"
| "opcodeArgs _ = 0"

text \<open>A code array holds opcodes and operands alike, as numbers.\<close>

datatype Value =
    Number JsNumber
  | String string
  | NilValue
  | Function string "nat list"

record Module =
  constants :: "Value list"
  code :: "nat list"


section \<open>The bytecode compiler (src/compiler.ts)\<close>

record Local =
  name :: string
  depth :: nat

datatype CompileError =
    UnknownIdentifier string
  | DuplicateIdentifier string
  | UnknownOperator TokenType

text \<open>
  The fields of the class \<open>Compiler\<close>. An entry of the constant pool is a JavaScript
  object: it is modelled as a pair of the object's identity and its contents, and
  \<open>nextId\<close> is the identity that the next object literal receives. The identity is
  what lodash's \<open>eq\<close> compares: \<open>eq(value, other)\<close> is
  \<open>value === other || (value !== value && other !== other)\<close>, the SameValueZero
  comparison, which on two objects holds only if they are the same object.
\<close>

type_synonym ValueObj = "nat \<times> Value"

record Compiler =
  constants :: "ValueObj list"
  locals :: "Local list"
  code :: "nat list"
  depth :: nat
  nextId :: nat

definition eq :: "ValueObj \<Rightarrow> ValueObj \<Rightarrow> bool" where
  "eq v other = (fst v = fst other)"

text \<open>An object literal \<open>{ type: ..., ... }\<close> creates a new object.\<close>

definition newObject :: "Value \<Rightarrow> Compiler \<Rightarrow> ValueObj \<times> Compiler" where
  "newObject v st = ((nextId st, v), st\<lparr>nextId := Suc (nextId st)\<rparr>)"

definition emit :: "nat list \<Rightarrow> Compiler \<Rightarrow> Compiler" where
  "emit bytes st = st\<lparr>Compiler.code := Compiler.code st @ bytes\<rparr>"

text \<open>The loop of \<open>addConstant\<close>, from index \<open>i\<close> on.\<close>

fun scanConstants :: "ValueObj \<Rightarrow> ValueObj list \<Rightarrow> nat \<Rightarrow> nat option" where
  "scanConstants v [] i = None"
| "scanConstants v (c # cs) i = (if eq v c then Some i else scanConstants v cs (Suc i))"

definition addConstant :: "ValueObj \<Rightarrow> Compiler \<Rightarrow> nat \<times> Compiler" where
  "addConstant v st =
    (case scanConstants v (Compiler.constants st) 0 of
       Some i \<Rightarrow> (i, st)
     | None \<Rightarrow>
        (let st' = st\<lparr>Compiler.constants := Compiler.constants st @ [v]\<rparr>
         in (length (Compiler.constants st') - 1, st')))"

text \<open>
  \<open>visitIntLit\<close>: under the test \<open>node.value === 0\<close> the sum \<open>Opcode.const0 + node.value\<close>
  is that of two integers.
\<close>

fun integerOf :: "JsNumber \<Rightarrow> int" where
  "integerOf (Finite k) = k"
| "integerOf _ = 0"

definition visitIntLit :: "JsNumber \<Rightarrow> Compiler \<Rightarrow> Compiler" where
  "visitIntLit v st =
    (if v = Finite 0 then emit [nat (int (opnum Op_const0) + integerOf v)] st
     else
       (let (obj, st1) = newObject (Number v) st;
            (constIdx, st2) = addConstant obj st1
        in emit [opnum Op_constant, constIdx] st2))"

definition visitStringLit :: "string \<Rightarrow> Compiler \<Rightarrow> Compiler" where
  "visitStringLit v st =
    (let (obj, st1) = newObject (String v) st;
         (constIdx, st2) = addConstant obj st1
     in emit [opnum Op_constant, constIdx] st2)"

text \<open>
  The loop of \<open>visitIdent\<close> over the filtered list: it runs from the last index down to
  0 and stops at the first match, so the result is the largest matching index.
\<close>

fun findLocal :: "string \<Rightarrow> Local list \<Rightarrow> nat option" where
  "findLocal n [] = None"
| "findLocal n (l # ls) =
    (case findLocal n ls of
       Some i \<Rightarrow> Some (Suc i)
     | None \<Rightarrow> (if Local.name l = n then Some 0 else None))"

definition visitIdent :: "string \<Rightarrow> Compiler \<Rightarrow> CompileError + Compiler" where
  "visitIdent n st =
    (let ls = filter (\<lambda>l. Local.depth l = Compiler.depth st) (locals st)
     in case findLocal n ls of
          Some i \<Rightarrow> Inr (emit [opnum Op_load, i] st)
        | None \<Rightarrow> Inl (UnknownIdentifier n))"

definition alreadyExists :: "string \<Rightarrow> Compiler \<Rightarrow> bool" where
  "alreadyExists n st =
    list_ex (\<lambda>l. Local.name l = n \<and> Local.depth l = Compiler.depth st) (locals st)"

definition pushLocal :: "string \<Rightarrow> Compiler \<Rightarrow> Compiler" where
  "pushLocal n st = st\<lparr>locals := locals st @ [\<lparr>name = n, depth = Compiler.depth st\<rparr>]\<rparr>"

definition popLocal :: "Compiler \<Rightarrow> Compiler" where
  "popLocal st = st\<lparr>locals := butlast (locals st)\<rparr>"

text \<open>The loop of \<open>visitFuncDecl\<close> that drops the locals of the body, \<open>n\<close> times.\<close>

fun popLocals :: "nat \<Rightarrow> Compiler \<Rightarrow> Compiler" where
  "popLocals 0 st = st"
| "popLocals (Suc n) st = popLocals n (emit [opnum Op_pop] (popLocal st))"

text \<open>
  The first steps of \<open>visitFuncDecl\<close> after its check: a new code array, the depth
  incremented, the local \<open>#ret\<close> and one local for each parameter.
\<close>

definition enterFunction :: "string list \<Rightarrow> Compiler \<Rightarrow> Compiler" where
  "enterFunction params st =
    (let st1 = st\<lparr>Compiler.code := [], Compiler.depth := Suc (Compiler.depth st)\<rparr>;
         st2 = pushLocal ''#ret'' st1
     in fold pushLocal params st2)"

text \<open>
  \<open>visit\<close> dispatches on the node type (src/visitor.ts); \<open>visitAll\<close> is the loop over
  the arguments of an invocation; \<open>compileBlock\<close> is the loop over the statements of a
  block, where \<open>isLast\<close> says that no statement follows. A \<open>throw\<close> is the result
  \<open>Inl\<close>.
\<close>

fun visit :: "AstNode \<Rightarrow> Compiler \<Rightarrow> CompileError + Compiler"
  and visitAll :: "AstNode list \<Rightarrow> Compiler \<Rightarrow> CompileError + Compiler"
  and compileBlock :: "AstNode list \<Rightarrow> Compiler \<Rightarrow> CompileError + Compiler"
where
  "visit (IntLit v) st = Inr (visitIntLit v st)"
| "visit (StringLit v) st = Inr (visitStringLit v st)"
| "visit (Ident n) st = visitIdent n st"
| "visit (Unary op e) st =
    (case visit e st of
       Inl err \<Rightarrow> Inl err
     | Inr st1 \<Rightarrow>
        (if op = T_minus then Inr (emit [opnum Op_neg] st1) else Inl (UnknownOperator op)))"
| "visit (Binary op l r) st =
    (case visit l st of
       Inl err \<Rightarrow> Inl err
     | Inr st1 \<Rightarrow>
        (case visit r st1 of
           Inl err \<Rightarrow> Inl err
         | Inr st2 \<Rightarrow>
            (if op = T_plus then Inr (emit [opnum Op_add] st2)
             else if op = T_minus then Inr (emit [opnum Op_sub] st2)
             else Inl (UnknownOperator op))))"
| "visit (Invoke target args) st =
    (case visitAll args (emit [opnum Op_nil] st) of
       Inl err \<Rightarrow> Inl err
     | Inr st1 \<Rightarrow>
        (case visit target st1 of
           Inl err \<Rightarrow> Inl err
         | Inr st2 \<Rightarrow> Inr (emit [opnum Op_invoke, length args] st2)))"
| "visit (ValDecl n v) st =
    (if alreadyExists n st then Inl (DuplicateIdentifier n)
     else
       (case visit v st of
          Inl err \<Rightarrow> Inl err
        | Inr st1 \<Rightarrow> Inr (pushLocal n st1)))"
| "visit (FuncDecl n params body) st =
    (if alreadyExists n st then Inl (DuplicateIdentifier n)
     else
       (let origCode = Compiler.code st;
            origDepth = Compiler.depth st;
            st3 = enterFunction params st
        in case compileBlock body st3 of
             Inl err \<Rightarrow> Inl err
           | Inr st4 \<Rightarrow>
              (let st5 = emit [opnum Op_store, 0] st4;
                   numLocals =
                     length (filter (\<lambda>l. Local.depth l = Compiler.depth st5) (locals st5));
                   st6 = popLocals (numLocals - 1) st5;
                   st7 = popLocal st6;
                   st8 = emit [opnum Op_return] st7;
                   fnCode = Compiler.code st8;
                   st9 = st8\<lparr>Compiler.code := origCode, Compiler.depth := origDepth\<rparr>;
                   st10 = pushLocal n st9;
                   (obj, st11) = newObject (Function n fnCode) st10;
                   (constIdx, st12) = addConstant obj st11
               in Inr (emit [opnum Op_constant, constIdx] st12))))"
| "visit (Print e) st =
    (case visit e st of
       Inl err \<Rightarrow> Inl err
     | Inr st1 \<Rightarrow> Inr (emit [opnum Op_print] st1))"
| "visitAll [] st = Inr st"
| "visitAll (a # as) st =
    (case visit a st of
       Inl err \<Rightarrow> Inl err
     | Inr st1 \<Rightarrow> visitAll as st1)"
| "compileBlock [] st = Inr st"
| "compileBlock (node # rest) st =
    (case visit node st of
       Inl err \<Rightarrow> Inl err
     | Inr st1 \<Rightarrow>
        (let isLast = (rest = []);
             isExpression = isExpr node;
             st2 = (if isExpression \<and> \<not> isLast then emit [opnum Op_pop] st1 else st1);
             st3 = (if \<not> isExpression \<and> isLast then emit [opnum Op_nil] st2 else st2)
         in compileBlock rest st3))"

text \<open>A new \<open>Compiler\<close>, and \<open>compile\<close> on the nodes that the parser returned.\<close>

definition newCompiler :: Compiler where
  "newCompiler = \<lparr>constants = [], locals = [], code = [], depth = 0, nextId = 0\<rparr>"

definition compile :: "AstNode list \<Rightarrow> CompileError + Module" where
  "compile nodes =
    (case compileBlock nodes newCompiler of
       Inl err \<Rightarrow> Inl err
     | Inr st \<Rightarrow>
        (let st' = emit [opnum Op_return] st
         in Inr \<lparr>Module.constants = map snd (Compiler.constants st'),
                 Module.code = Compiler.code st'\<rparr>))"


section \<open>The virtual machine (src/vm.ts)\<close>

text \<open>
  The rendering of a number by a template literal is \<open>Number::toString\<close> of ECMAScript.
  For a positive double it takes the decimal numeral with the fewest significant digits
  that still reads back as the same double, the nearest to the double if there are two;
  \<open>shortest\<close> is the integer that this numeral denotes. Up to 21 digits the numeral is
  written out with its trailing zeros, beyond in exponent notation.
\<close>

definition digitChar :: "nat \<Rightarrow> char" where
  "digitChar d =
    (if d = 0 then CHR ''0'' else if d = 1 then CHR ''1'' else if d = 2 then CHR ''2''
     else if d = 3 then CHR ''3'' else if d = 4 then CHR ''4'' else if d = 5 then CHR ''5''
     else if d = 6 then CHR ''6'' else if d = 7 then CHR ''7'' else if d = 8 then CHR ''8''
     else CHR ''9'')"

function decimal :: "int \<Rightarrow> string" where
  "decimal n =
    (if n < 10 then [digitChar (nat n)] else decimal (n div 10) @ [digitChar (nat (n mod 10))])"
  by pat_completeness auto

termination
  by (relation "measure nat") auto

declare decimal.simps [simp del]

fun findShortest :: "int \<Rightarrow> nat list \<Rightarrow> int" where
  "findShortest x [] = x"
| "findShortest x (e # es) =
    (let p = 10 ^ e;
         lo = (x div p) * p;
         hi = lo + p;
         okLo = (roundDouble lo = Finite x);
         okHi = (roundDouble hi = Finite x)
     in if okLo \<and> okHi then
          (if x - lo < hi - x then lo
           else if hi - x < x - lo then hi
           else if even (x div p) then lo else hi)
        else if okLo then lo
        else if okHi then hi
        else findShortest x es)"

definition shortest :: "int \<Rightarrow> int" where
  "shortest x = findShortest x (rev [0..<length (decimal x)])"

fun dropZeros :: "string \<Rightarrow> string" where
  "dropZeros [] = []"
| "dropZeros (c # cs) = (if c = CHR ''0'' then dropZeros cs else c # cs)"

definition renderMagnitude :: "int \<Rightarrow> string" where
  "renderMagnitude x =
    (let ds = decimal (shortest x)
     in if length ds \<le> 21 then ds
        else
          (let sig = rev (dropZeros (rev ds))
           in hd sig # (if tl sig = [] then [] else CHR ''.'' # tl sig)
              @ ''e+'' @ decimal (int (length ds) - 1)))"

fun numberToString :: "JsNumber \<Rightarrow> string" where
  "numberToString (Finite i) =
    (if i < 0 then CHR ''-'' # renderMagnitude (- i) else renderMagnitude i)"
| "numberToString Infinity = ''Infinity''"
| "numberToString MinusInfinity = ''-Infinity''"
| "numberToString NotANumber = ''NaN''"

fun valueToString :: "Value \<Rightarrow> string" where
  "valueToString (Number v) = numberToString v"
| "valueToString (String v) = v"
| "valueToString NilValue = ''nil''"
| "valueToString (Function n c) = ''<#fn '' @ n @ ''>''"

text \<open>The field \<open>type\<close> of a value.\<close>

fun typeOf :: "Value \<Rightarrow> string" where
  "typeOf (Number _) = ''number''"
| "typeOf (String _) = ''string''"
| "typeOf NilValue = ''nil''"
| "typeOf (Function _ _) = ''function''"

text \<open>
  The result of index arithmetic in JavaScript: an integer, or \<open>NaN\<close> when an operand
  was read past the end of the code (\<open>undefined\<close>).
\<close>

datatype JsIndex = Idx int | NaN

fun addIndex :: "nat option \<Rightarrow> JsIndex \<Rightarrow> JsIndex" where
  "addIndex (Some n) (Idx k) = Idx (int n + k)"
| "addIndex _ _ = NaN"

record CallFrame =
  ip :: nat
  code :: "nat list"
  stackOffset :: JsIndex

text \<open>The errors that the machine throws, with what the message names.\<close>

datatype VMError =
    EmptyStack
  | ConstantIndexOutOfRange "nat option"
  | StackIndexOutOfRange JsIndex
  | TypeMismatch "string list" string
  | NotInvocable string
  | NoCallFrame

text \<open>
  The fields of the class \<open>VM\<close>. The array \<open>stack\<close> is the list \<open>stack\<close>, bottom
  first; \<open>stackProps\<close> holds what an assignment \<open>stack[i] = v\<close> with a negative or
  \<open>NaN\<close> index leaves behind in JavaScript: a property of the array object that is no
  element of it. \<open>console\<close> is what \<open>console.log\<close> has printed.
\<close>

record VM =
  module :: Module
  callStack :: "CallFrame list"
  stack :: "Value list"
  stackProps :: "(JsIndex \<times> Value) list"
  halted :: bool
  console :: "string list"

definition newVM :: "Module \<Rightarrow> VM" where
  "newVM m =
    \<lparr>module = m,
     callStack = [\<lparr>ip = 0, code = Module.code m, stackOffset = Idx 0\<rparr>],
     stack = [], stackProps = [], halted = False, console = []\<rparr>"

definition currentFrame :: "VM \<Rightarrow> CallFrame" where
  "currentFrame vm = last (callStack vm)"

text \<open>\<open>readByte\<close>: \<open>None\<close> is \<open>undefined\<close>, read past the end of the code.\<close>

definition readByte :: "VM \<Rightarrow> nat option \<times> VM" where
  "readByte vm =
    (let f = currentFrame vm;
         byte = (if ip f < length (CallFrame.code f) then Some (CallFrame.code f ! ip f) else None)
     in (byte, vm\<lparr>callStack := butlast (callStack vm) @ [f\<lparr>ip := Suc (ip f)\<rparr>]\<rparr>))"

definition push :: "Value \<Rightarrow> VM \<Rightarrow> VM" where
  "push val vm = vm\<lparr>stack := stack vm @ [val]\<rparr>"

definition pop :: "VM \<Rightarrow> (VMError \<times> VM) + (Value \<times> VM)" where
  "pop vm =
    (if stack vm = [] then Inl (EmptyStack, vm)
     else Inr (last (stack vm), vm\<lparr>stack := butlast (stack vm)\<rparr>))"

text \<open>
  \<open>this.stack[i]\<close> read and written. The store opcode writes after its check and its
  pop, so with \<open>i\<close> at most the length of the array; \<open>stack[length] = v\<close> appends.
\<close>

fun stackGet :: "VM \<Rightarrow> JsIndex \<Rightarrow> Value option" where
  "stackGet vm (Idx i) =
    (if 0 \<le> i then (if nat i < length (stack vm) then Some (stack vm ! nat i) else None)
     else map_of (stackProps vm) (Idx i))"
| "stackGet vm NaN = map_of (stackProps vm) NaN"

fun stackSet :: "JsIndex \<Rightarrow> Value \<Rightarrow> VM \<Rightarrow> VM" where
  "stackSet (Idx i) v vm =
    (if 0 \<le> i then
       (if nat i < length (stack vm) then vm\<lparr>stack := (stack vm)[nat i := v]\<rparr>
        else vm\<lparr>stack := stack vm @ [v]\<rparr>)
     else vm\<lparr>stackProps := (Idx i, v) # stackProps vm\<rparr>)"
| "stackSet NaN v vm = vm\<lparr>stackProps := (NaN, v) # stackProps vm\<rparr>"

text \<open>\<open>slotIdx >= this.stack.length\<close>, which is false for \<open>NaN\<close>.\<close>

fun geLength :: "JsIndex \<Rightarrow> nat \<Rightarrow> bool" where
  "geLength (Idx i) n = (int n \<le> i)"
| "geLength NaN n = False"

definition handleInstr :: "VM \<Rightarrow> (VMError \<times> VM) + VM" where
  "handleInstr vm =
    (if callStack vm = [] then Inl (NoCallFrame, vm)
     else
      (let (byte, vm1) = readByte vm
       in case (case byte of None \<Rightarrow> None | Some n \<Rightarrow> decode n) of
            None \<Rightarrow> Inr vm1
          | Some Op_const0 \<Rightarrow> Inr (push (Number (Finite (int (opnum Op_const0 + the byte)))) vm1)
          | Some Op_const1 \<Rightarrow> Inr (push (Number (Finite (int (opnum Op_const0 + the byte)))) vm1)
          | Some Op_const2 \<Rightarrow> Inr (push (Number (Finite (int (opnum Op_const0 + the byte)))) vm1)
          | Some Op_constant \<Rightarrow>
             (let (constIdx, vm2) = readByte vm1;
                  cs = Module.constants (module vm2)
              in case constIdx of
                   None \<Rightarrow> Inl (ConstantIndexOutOfRange constIdx, vm2)
                 | Some i \<Rightarrow>
                    (if i < length cs then Inr (push (cs ! i) vm2)
                     else Inl (ConstantIndexOutOfRange constIdx, vm2)))
          | Some Op_neg \<Rightarrow>
             (case pop vm1 of
                Inl err \<Rightarrow> Inl err
              | Inr (val, vm2) \<Rightarrow>
                 (case val of
                    Number v \<Rightarrow> Inr (push (Number (negNumber v)) vm2)
                  | _ \<Rightarrow> Inl (TypeMismatch [typeOf val] ''-'', vm2)))
          | Some Op_add \<Rightarrow>
             (case pop vm1 of
                Inl err \<Rightarrow> Inl err
              | Inr (right, vm2) \<Rightarrow>
                 (case pop vm2 of
                    Inl err \<Rightarrow> Inl err
                  | Inr (left, vm3) \<Rightarrow>
                     (if typeOf left = ''string'' \<or> typeOf right = ''string'' then
                        Inr (push (String (valueToString left @ valueToString right)) vm3)
                      else
                        (case (left, right) of
                           (Number a, Number b) \<Rightarrow> Inr (push (Number (addNumber a b)) vm3)
                         | _ \<Rightarrow> Inl (TypeMismatch [typeOf left, typeOf right] ''+'', vm3)))))
          | Some Op_sub \<Rightarrow>
             (case pop vm1 of
                Inl err \<Rightarrow> Inl err
              | Inr (right, vm2) \<Rightarrow>
                 (case pop vm2 of
                    Inl err \<Rightarrow> Inl err
                  | Inr (left, vm3) \<Rightarrow>
                     (case (left, right) of
                        (Number a, Number b) \<Rightarrow> Inr (push (Number (subNumber a b)) vm3)
                      | _ \<Rightarrow> Inl (TypeMismatch [typeOf left, typeOf right] ''-'', vm3))))
          | Some Op_load \<Rightarrow>
             (let (slotIdx, vm2) = readByte vm1
              in case stackGet vm2 (addIndex slotIdx (stackOffset (currentFrame vm2))) of
                   None \<Rightarrow> Inl (StackIndexOutOfRange (addIndex slotIdx (Idx 0)), vm2)
                 | Some slot \<Rightarrow> Inr (push slot vm2))
          | Some Op_store \<Rightarrow>
             (let (slotIdxVirt, vm2) = readByte vm1;
                  slotIdx = addIndex slotIdxVirt (stackOffset (currentFrame vm2))
              in if geLength slotIdx (length (stack vm2)) then
                   Inl (StackIndexOutOfRange slotIdx, vm2)
                 else
                   (case pop vm2 of
                      Inl err \<Rightarrow> Inl err
                    | Inr (val, vm3) \<Rightarrow> Inr (stackSet slotIdx val vm3)))
          | Some Op_print \<Rightarrow>
             (case pop vm1 of
                Inl err \<Rightarrow> Inl err
              | Inr (val, vm2) \<Rightarrow> Inr (vm2\<lparr>console := console vm2 @ [valueToString val]\<rparr>))
          | Some Op_invoke \<Rightarrow>
             (let (arity, vm2) = readByte vm1
              in case pop vm2 of
                   Inl err \<Rightarrow> Inl err
                 | Inr (target, vm3) \<Rightarrow>
                    (case target of
                       Function n c \<Rightarrow>
                        Inr (vm3\<lparr>callStack := callStack vm3 @
                              [\<lparr>ip = 0, code = c,
                                stackOffset =
                                  (case arity of
                                     None \<Rightarrow> NaN
                                   | Some a \<Rightarrow> Idx (int (length (stack vm3)) - 1 - int a))\<rparr>]\<rparr>)
                     | _ \<Rightarrow> Inl (NotInvocable (typeOf target), vm3)))
          | Some Op_pop \<Rightarrow>
             (case pop vm1 of
                Inl err \<Rightarrow> Inl err
              | Inr (val, vm2) \<Rightarrow> Inr vm2)
          | Some Op_nil \<Rightarrow> Inr (push NilValue vm1)
          | Some Op_return \<Rightarrow>
             (if length (callStack vm1) > 1 then Inr (vm1\<lparr>callStack := butlast (callStack vm1)\<rparr>)
              else Inr (vm1\<lparr>halted := True\<rparr>))))"

text \<open>
  \<open>run\<close>: the loop may not end, so the result is an option, \<open>None\<close> when it runs for
  ever. A thrown error is returned with the machine as the throw left it.
\<close>

partial_function (option) run :: "VM \<Rightarrow> ((VMError \<times> VM) + Value) option" where
  "run vm =
    (if halted vm then
       Some (Inr (if stack vm = [] then NilValue else last (stack vm)))
     else
       (case handleInstr vm of
          Inl err \<Rightarrow> Some (Inl err)
        | Inr vm' \<Rightarrow> run vm'))"

declare run.simps [code]


text \<open>The body of the loop of \<open>run\<close>, \<open>n\<close> times, whatever \<open>halted\<close> says.\<close>

fun steps :: "nat \<Rightarrow> VM \<Rightarrow> (VMError \<times> VM) + VM" where
  "steps 0 vm = Inr vm"
| "steps (Suc n) vm =
    (case handleInstr vm of
       Inl err \<Rightarrow> Inl err
     | Inr vm' \<Rightarrow> steps n vm')"

section \<open>Programs and notions that the statements below use\<close>

text \<open>
  A decimal numeral, and the integer that it denotes: this is how a reader of the
  rendering of a number takes it.
\<close>

definition digitValue :: "char \<Rightarrow> int" where
  "digitValue c =
    (case map_of (zip ''0123456789'' [0, 1, 2, 3, 4, 5, 6, 7, 8, 9]) c of
       Some v \<Rightarrow> v
     | None \<Rightarrow> 0)"

definition decimalValue :: "string \<Rightarrow> int" where
  "decimalValue ds = foldl (\<lambda>a c. 10 * a + digitValue c) 0 ds"

definition isNumeral :: "string \<Rightarrow> bool" where
  "isNumeral ds \<longleftrightarrow>
     ds \<noteq> [] \<and> set ds \<subseteq> set ''0123456789'' \<and> (hd ds = CHR ''0'' \<longrightarrow> ds = ''0'')"

text \<open>
  The program \<open>def f(a, b, c) { 1 }  def g() { 2 }  f(f())\<close>: it calls \<open>f\<close>, which has
  three parameters, with no argument and then with one.
\<close>

definition storeProgram :: "AstNode list" where
  "storeProgram =
    [FuncDecl ''f'' [''a'', ''b'', ''c''] [IntLit (Finite 1)],
     FuncDecl ''g'' [] [IntLit (Finite 2)],
     Invoke (Ident ''f'') [Invoke (Ident ''f'') []]]"

text \<open>The list \<open>locals\<close> of \<open>visitIdent\<close>: the locals of the current depth, in the order of their declaration.\<close>

definition currentLocals :: "Compiler \<Rightarrow> Local list" where
  "currentLocals st = filter (\<lambda>l. Local.depth l = Compiler.depth st) (locals st)"

text \<open>
  The wording of the specification for the operand of the load: the position of the match
  in the reverse-ordered view of that list, which starts with the most recent local.
\<close>

fun firstIndex :: "string \<Rightarrow> Local list \<Rightarrow> nat option" where
  "firstIndex n [] = None"
| "firstIndex n (l # ls) =
    (if Local.name l = n then Some 0 else map_option Suc (firstIndex n ls))"

definition reverseViewPosition :: "string \<Rightarrow> Compiler \<Rightarrow> nat option" where
  "reverseViewPosition n st = firstIndex n (rev (currentLocals st))"

text \<open>The compiler after the block \<open>const x = 0  const y = 0\<close>.\<close>

definition twoLocals :: Compiler where
  "twoLocals = newCompiler\<lparr>locals := [\<lparr>name = ''x'', depth = 0\<rparr>, \<lparr>name = ''y'', depth = 0\<rparr>],
     Compiler.code := [0, 0, 12]\<rparr>"

text \<open>
  No local is deeper than the compiler: this holds in a new compiler and after every
  successful \<open>visit\<close>, which appends locals of the current depth and nothing else.
\<close>

definition localsOk :: "Compiler \<Rightarrow> bool" where
  "localsOk st = (\<forall>l \<in> set (locals st). Local.depth l \<le> Compiler.depth st)"

definition appendsLocals :: "Compiler \<Rightarrow> Compiler \<Rightarrow> bool" where
  "appendsLocals st st' \<longleftrightarrow>
     Compiler.depth st' = Compiler.depth st
     \<and> (\<exists>new. locals st' = locals st @ new
           \<and> (\<forall>l \<in> set new. Local.depth l = Compiler.depth st))"

text \<open>
  What \<open>parseExpression\<close> of src/parser.ts builds: literals, identifiers, unary and
  binary operations and invocations, of such nodes only.
\<close>

fun exprTree :: "AstNode \<Rightarrow> bool" where
  "exprTree (IntLit _) = True"
| "exprTree (StringLit _) = True"
| "exprTree (Ident _) = True"
| "exprTree (Unary _ e) = exprTree e"
| "exprTree (Binary _ l r) = (exprTree l \<and> exprTree r)"
| "exprTree (Invoke target args) = (exprTree target \<and> (\<forall>a \<in> set args. exprTree a))"
| "exprTree (ValDecl _ _) = False"
| "exprTree (FuncDecl _ _ _) = False"
| "exprTree (Print _) = False"


text \<open>
  A statement as \<open>parseStatement\<close> of src/parser.ts builds it: a declaration of a value
  by an expression, a declaration of a function, a print of an expression, or an
  expression.
\<close>

fun statementTree :: "AstNode \<Rightarrow> bool" where
  "statementTree (ValDecl _ v) = exprTree v"
| "statementTree (FuncDecl _ _ _) = True"
| "statementTree (Print e) = exprTree e"
| "statementTree e = exprTree e"

text \<open>The declarations among the statements of a block.\<close>

fun isDecl :: "AstNode \<Rightarrow> bool" where
  "isDecl (ValDecl _ _) = True"
| "isDecl (FuncDecl _ _ _) = True"
| "isDecl _ = False"

definition declCount :: "AstNode list \<Rightarrow> nat" where
  "declCount nodes = length (filter isDecl nodes)"

text \<open>
  The instructions of a code array are counted as the disassembler of src/index.ts walks
  it: an opcode and as many operands as \<open>opcodeMeta\<close> says.
\<close>

definition operands :: "nat \<Rightarrow> nat" where
  "operands byte = (case decode byte of None \<Rightarrow> 0 | Some op \<Rightarrow> opcodeArgs op)"

fun instrCount :: "nat list \<Rightarrow> nat" where
  "instrCount [] = 0"
| "instrCount (byte # bytes) = Suc (instrCount (drop (operands byte) bytes))"

text \<open>
  The change of the stack depth that an opcode makes when it does not throw; for
  \<open>invoke\<close>, the pop of the callee. The net effect of a code array is the sum over its
  instructions, where an invocation counts with its operand: a call that returns with
  its return slot in place of the arguments has taken them from the stack.
\<close>

fun delta :: "Opcode \<Rightarrow> int" where
  "delta Op_const0 = 1"
| "delta Op_const1 = 1"
| "delta Op_const2 = 1"
| "delta Op_constant = 1"
| "delta Op_neg = 0"
| "delta Op_add = - 1"
| "delta Op_sub = - 1"
| "delta Op_load = 1"
| "delta Op_store = - 1"
| "delta Op_print = - 1"
| "delta Op_invoke = - 1"
| "delta Op_pop = - 1"
| "delta Op_nil = 1"
| "delta Op_return = 0"

fun netEffect :: "nat list \<Rightarrow> int" where
  "netEffect [] = 0"
| "netEffect (byte # bytes) =
    (case decode byte of
       None \<Rightarrow> 0
     | Some op \<Rightarrow> delta op - (if op = Op_invoke then int (hd bytes) else 0))
    + netEffect (drop (operands byte) bytes)"

text \<open>A code array that consists of whole instructions whose opcodes satisfy \<open>P\<close>.\<close>

fun instrs :: "(Opcode \<Rightarrow> bool) \<Rightarrow> nat list \<Rightarrow> bool" where
  "instrs P [] = True"
| "instrs P (byte # s) =
    (case decode byte of
       None \<Rightarrow> False
     | Some op \<Rightarrow>
        P op \<and> (if opcodeArgs op = 0 then instrs P s else s \<noteq> [] \<and> instrs P (tl s)))"

declare instrs.simps [simp del]

text \<open>The opcodes that neither change the frame nor store.\<close>

definition straightOp :: "Opcode \<Rightarrow> bool" where
  "straightOp op = (op \<noteq> Op_invoke \<and> op \<noteq> Op_return \<and> op \<noteq> Op_store)"

text \<open>The opcodes that neither return from the frame nor store.\<close>

definition frameOp :: "Opcode \<Rightarrow> bool" where
  "frameOp op = (op \<noteq> Op_return \<and> op \<noteq> Op_store)"

text \<open>
  From \<open>st\<close> to \<open>st'\<close> the compiler has appended whole instructions of such opcodes, of
  net effect \<open>d\<close>.
\<close>

definition emits :: "Compiler \<Rightarrow> Compiler \<Rightarrow> int \<Rightarrow> bool" where
  "emits st st' d \<longleftrightarrow>
     (\<exists>seg. Compiler.code st' = Compiler.code st @ seg \<and> instrs frameOp seg \<and> netEffect seg = d)"

text \<open>
  The machine runs, at most \<open>n\<close> instructions, until its call stack is shorter than
  \<open>d\<close>: with \<open>d\<close> the length of the call stack just after an \<open>invoke\<close>, until the
  frame of the callee has returned.
\<close>

fun callLoop :: "nat \<Rightarrow> nat \<Rightarrow> VM \<Rightarrow> VM option" where
  "callLoop 0 d vm = None"
| "callLoop (Suc n) d vm =
    (if length (callStack vm) < d then Some vm
     else case handleInstr vm of Inl err \<Rightarrow> None | Inr vm1 \<Rightarrow> callLoop n d vm1)"

text \<open>
  The machine executes the instructions of a code array, which its current frame holds
  at its instruction pointer, one after the other. After an \<open>invoke\<close> the machine runs
  until the frame of the callee has returned, at most \<open>fuel\<close> instructions, and the
  execution goes on if the call has left the stack as a call does that returns a value
  for its arguments: without the arguments that the \<open>invoke\<close> names, the return slot
  remaining. The result is \<open>None\<close> when an instruction throws, when a call does not
  return within \<open>fuel\<close> instructions, and when a call leaves the stack otherwise.
\<close>

fun runCode :: "nat \<Rightarrow> nat list \<Rightarrow> VM \<Rightarrow> VM option" where
  "runCode fuel [] vm = Some vm"
| "runCode fuel (byte # bytes) vm =
    (case handleInstr vm of
       Inl err \<Rightarrow> None
     | Inr vm1 \<Rightarrow>
        if decode byte = Some Op_invoke then
          (case callLoop fuel (length (callStack vm1)) vm1 of
             None \<Rightarrow> None
           | Some vm2 \<Rightarrow>
              if length (stack vm2) + hd bytes = length (stack vm1)
              then runCode fuel (tl bytes) vm2
              else None)
        else runCode fuel (drop (operands byte) bytes) vm1)"








text \<open>The identities of the objects in the pool are older than the next one.\<close>

definition poolOk :: "Compiler \<Rightarrow> bool" where
  "poolOk st = (\<forall>c \<in> set (Compiler.constants st). fst c < nextId st)"





section \<open>Lemmas\<close>

subsection \<open>Numbers\<close>

lemma bitLength_le: "m < 2 ^ k \<Longrightarrow> bitLength m \<le> k"
proof (induction k arbitrary: m)
  case 0
  then show ?case by (simp add: bitLength.simps)
next
  case (Suc k)
  show ?case
  proof (cases "m \<le> 0")
    case True
    then show ?thesis by (simp add: bitLength.simps)
  next
    case False
    from Suc.prems have "m div 2 < 2 ^ k" by simp
    from Suc.IH [OF this] False show ?thesis
      by (subst bitLength.simps) simp
  qed
qed

lemma bitLength_gt: "2 ^ k \<le> m \<Longrightarrow> k < bitLength m"
proof (induction k arbitrary: m)
  case 0
  then show ?case by (subst bitLength.simps) simp
next
  case (Suc k)
  from Suc.prems have "2 ^ k \<le> m div 2" by simp
  moreover have "(0::int) < 2 ^ Suc k" by simp
  then have "0 < m" using Suc.prems by (rule less_le_trans)
  ultimately show ?case
    using Suc.IH [of "m div 2"] by (subst bitLength.simps) simp
qed

lemma bitLength_lower: "0 < m \<Longrightarrow> 2 ^ (bitLength m - 1) \<le> m"
proof -
  assume m: "0 < m"
  have "\<not> m < 2 ^ (bitLength m - 1)"
  proof
    assume "m < 2 ^ (bitLength m - 1)"
    from bitLength_le [OF this] have "bitLength m = 0" by simp
    with m show False by (subst (asm) bitLength.simps) simp
  qed
  then show ?thesis by simp
qed

lemma roundMagnitude_small: "m < 2 ^ 53 \<Longrightarrow> roundMagnitude m = m"
  using bitLength_le [of m 53] by (simp add: roundMagnitude_def)

lemma roundDouble_small: "\<bar>i\<bar> < 2 ^ 53 \<Longrightarrow> roundDouble i = Finite i"
proof -
  assume a: "\<bar>i\<bar> < 2 ^ 53"
  from bitLength_le [of "\<bar>i\<bar>" 53] a have "bitLength \<bar>i\<bar> \<le> 53" by simp
  with a show ?thesis
    by (auto simp: roundDouble_def roundMagnitude_def Let_def)
qed

lemma roundMagnitude_large:
  assumes "2 ^ 53 \<le> m"
  shows "2 ^ 53 \<le> roundMagnitude m"
proof -
  from bitLength_gt [OF assms] have b: "53 < bitLength m" .
  define e where "e = bitLength m - 53"
  from b have e: "0 < e" "bitLength m - 1 = 52 + e" by (simp_all add: e_def)
  from assms have "0 < m" by (smt (verit) zero_less_power)
  from bitLength_lower [OF this] e have "2 ^ 52 * 2 ^ e \<le> m"
    by (simp add: power_add)
  then have "2 ^ 52 * 2 ^ e div 2 ^ e \<le> m div 2 ^ e"
    by (rule zdiv_mono1) simp
  then have q: "2 ^ 52 \<le> m div 2 ^ e"
    by simp
  have rm: "roundMagnitude m =
      (if 2 ^ (e - 1) < m mod 2 ^ e \<or> (m mod 2 ^ e = 2 ^ (e - 1) \<and> odd (m div 2 ^ e))
       then m div 2 ^ e + 1 else m div 2 ^ e) * 2 ^ e"
    using b by (simp add: roundMagnitude_def Let_def e_def)
  have "(2::int) ^ 53 = 2 ^ 52 * 2 ^ 1" by simp
  also have "\<dots> \<le> 2 ^ 52 * 2 ^ e"
    using e(1) by (intro mult_left_mono power_increasing) simp_all
  also have "\<dots> \<le> (if 2 ^ (e - 1) < m mod 2 ^ e \<or> (m mod 2 ^ e = 2 ^ (e - 1) \<and> odd (m div 2 ^ e))
      then m div 2 ^ e + 1 else m div 2 ^ e) * 2 ^ e"
    using q by (intro mult_right_mono) auto
  finally show ?thesis by (simp only: rm)
qed

lemma digitValue_digitChar: "d < 10 \<Longrightarrow> digitValue (digitChar d) = int d"
proof -
  assume "d < 10"
  then have "d = 0 \<or> d = 1 \<or> d = 2 \<or> d = 3 \<or> d = 4 \<or> d = 5 \<or> d = 6 \<or> d = 7 \<or> d = 8 \<or> d = 9"
    by arith
  then show ?thesis by (auto simp: digitValue_def digitChar_def)
qed

lemma digitChar_digit: "digitChar d \<in> set ''0123456789''"
  by (simp add: digitChar_def)

lemma digitChar_zero: "d < 10 \<Longrightarrow> digitChar d = CHR ''0'' \<longleftrightarrow> d = 0"
proof -
  assume "d < 10"
  then have "d = 0 \<or> d = 1 \<or> d = 2 \<or> d = 3 \<or> d = 4 \<or> d = 5 \<or> d = 6 \<or> d = 7 \<or> d = 8 \<or> d = 9"
    by arith
  then show ?thesis by (auto simp: digitChar_def)
qed

lemma decimalValue_snoc: "decimalValue (ds @ [c]) = 10 * decimalValue ds + digitValue c"
  by (simp add: decimalValue_def)

lemma decimal_ne: "decimal x \<noteq> []"
  by (subst decimal.simps) simp

lemma decimalValue_decimal: "0 \<le> x \<Longrightarrow> decimalValue (decimal x) = x"
proof (induction x rule: decimal.induct)
  case (1 n)
  show ?case
  proof (cases "n < 10")
    case True
    with "1.prems" have "decimal n = [digitChar (nat n)]" "nat n < 10"
      by (simp_all add: decimal.simps)
    with "1.prems" show ?thesis
      by (simp add: decimalValue_def digitValue_digitChar)
  next
    case False
    then have d: "decimal n = decimal (n div 10) @ [digitChar (nat (n mod 10))]"
      by (subst decimal.simps) simp
    have m: "nat (n mod 10) < 10" by simp
    from "1.IH" [OF False] "1.prems" have "decimalValue (decimal (n div 10)) = n div 10"
      by simp
    then show ?thesis
      by (simp add: d decimalValue_snoc digitValue_digitChar [OF m])
  qed
qed

lemma hd_decimal: "0 < x \<Longrightarrow> hd (decimal x) \<noteq> CHR ''0''"
proof (induction x rule: decimal.induct)
  case (1 n)
  show ?case
  proof (cases "n < 10")
    case True
    with "1.prems" have "decimal n = [digitChar (nat n)]" "nat n < 10" "nat n \<noteq> 0"
      by (simp_all add: decimal.simps)
    then show ?thesis by (simp add: digitChar_zero)
  next
    case False
    then have d: "decimal n = decimal (n div 10) @ [digitChar (nat (n mod 10))]"
      by (subst decimal.simps) simp
    from False have "0 < n div 10" by simp
    from "1.IH" [OF False this] show ?thesis
      by (simp add: d decimal_ne)
  qed
qed

lemma digits_decimal: "set (decimal x) \<subseteq> set ''0123456789''"
proof (induction x rule: decimal.induct)
  case (1 n)
  show ?case
  proof (cases "n < 10")
    case True
    then have "decimal n = [digitChar (nat n)]" by (simp add: decimal.simps)
    then show ?thesis using digitChar_digit [of "nat n"] by simp
  next
    case False
    then have d: "decimal n = decimal (n div 10) @ [digitChar (nat (n mod 10))]"
      by (subst decimal.simps) simp
    from "1.IH" [OF False] digitChar_digit [of "nat (n mod 10)"] show ?thesis
      by (simp add: d)
  qed
qed

lemma isNumeral_decimal: "0 \<le> x \<Longrightarrow> isNumeral (decimal x)"
proof -
  assume x: "0 \<le> x"
  have "hd (decimal x) = CHR ''0'' \<longrightarrow> decimal x = ''0''"
  proof (cases "x = 0")
    case True
    then show ?thesis by (simp add: decimal.simps digitChar_def)
  next
    case False
    with x hd_decimal [of x] show ?thesis by simp
  qed
  then show ?thesis
    using digits_decimal [of x] decimal_ne [of x] by (simp add: isNumeral_def)
qed

lemma length_decimal: "x < 10 ^ Suc k \<Longrightarrow> length (decimal x) \<le> Suc k"
proof (induction k arbitrary: x)
  case 0
  then show ?case by (simp add: decimal.simps)
next
  case (Suc k)
  show ?case
  proof (cases "x < 10")
    case True
    then show ?thesis by (simp add: decimal.simps)
  next
    case False
    then have d: "decimal x = decimal (x div 10) @ [digitChar (nat (x mod 10))]"
      by (subst decimal.simps) simp
    from Suc.prems have "x div 10 < 10 ^ Suc k" by simp
    from Suc.IH [OF this] show ?thesis by (simp add: d)
  qed
qed

lemma roundDouble_safe:
  assumes "0 \<le> v" and "roundDouble v = Finite x" and "x < 2 ^ 53"
  shows "v = x"
proof (cases "v < 2 ^ 53")
  case True
  with assms(1) have "roundDouble v = Finite v" by (intro roundDouble_small) simp
  with assms(2) show ?thesis by simp
next
  case False
  then have "2 ^ 53 \<le> roundMagnitude \<bar>v\<bar>"
    using assms(1) by (intro roundMagnitude_large) simp
  with assms show ?thesis
    by (auto simp: roundDouble_def Let_def split: if_splits)
qed

lemma findShortest_safe:
  assumes "0 \<le> x" and "x < 2 ^ 53"
  shows "findShortest x es = x"
proof (induction es)
  case Nil
  show ?case by simp
next
  case (Cons e es)
  define p :: int where "p = 10 ^ e"
  have p: "0 < p" by (simp add: p_def)
  define lo where "lo = (x div p) * p"
  have m: "0 \<le> x mod p" "x mod p < p" using p by simp_all
  have e: "x = lo + x mod p" by (simp add: lo_def)
  have "0 \<le> x div p" using p assms(1) by (simp add: pos_imp_zdiv_nonneg_iff)
  then have "0 \<le> lo" using p by (simp add: lo_def)
  with e m have lo: "0 \<le> lo" "lo \<le> x" "x < lo + p" by linarith+
  have a: "roundDouble lo = Finite x \<Longrightarrow> lo = x"
    using roundDouble_safe [OF lo(1) _ assms(2)] by simp
  have b: "roundDouble (lo + p) \<noteq> Finite x"
  proof
    assume "roundDouble (lo + p) = Finite x"
    from roundDouble_safe [OF _ this assms(2)] lo p show False by simp
  qed
  show ?case
    using a b Cons.IH
    by (simp add: Let_def p_def [symmetric] lo_def [symmetric])
qed

lemma renderMagnitude_safe:
  assumes "0 \<le> x" and "x < 2 ^ 53"
  shows "renderMagnitude x = decimal x"
proof -
  from assms(2) have "x < 10 ^ Suc 20" by simp
  from length_decimal [OF this] have "length (decimal x) \<le> 21" by simp
  then show ?thesis
    by (simp add: renderMagnitude_def shortest_def findShortest_safe [OF assms])
qed

section \<open>Auxiliary facts about the compiler\<close>

lemma emit_fields [simp]:
  "locals (emit bs st) = locals st"
  "Compiler.depth (emit bs st) = Compiler.depth st"
  "Compiler.constants (emit bs st) = Compiler.constants st"
  "nextId (emit bs st) = nextId st"
  "Compiler.code (emit bs st) = Compiler.code st @ bs"
  by (simp_all add: emit_def)

lemma addConstant_fields [simp]:
  "locals (snd (addConstant v st)) = locals st"
  "Compiler.depth (snd (addConstant v st)) = Compiler.depth st"
  "Compiler.code (snd (addConstant v st)) = Compiler.code st"
  "nextId (snd (addConstant v st)) = nextId st"
  by (simp_all add: addConstant_def Let_def split: option.splits)

lemma newObject_fields [simp]:
  "locals (snd (newObject v st)) = locals st"
  "Compiler.depth (snd (newObject v st)) = Compiler.depth st"
  "Compiler.code (snd (newObject v st)) = Compiler.code st"
  "Compiler.constants (snd (newObject v st)) = Compiler.constants st"
  "nextId (snd (newObject v st)) = Suc (nextId st)"
  "fst (newObject v st) = (nextId st, v)"
  by (simp_all add: newObject_def)

lemma visitIntLit_fields [simp]:
  "locals (visitIntLit v st) = locals st"
  "Compiler.depth (visitIntLit v st) = Compiler.depth st"
  by (simp_all add: visitIntLit_def Let_def split_beta)

lemma visitStringLit_fields [simp]:
  "locals (visitStringLit v st) = locals st"
  "Compiler.depth (visitStringLit v st) = Compiler.depth st"
  by (simp_all add: visitStringLit_def Let_def split_beta)


lemma firstIndex_append:
  "firstIndex n (xs @ ys) =
    (case firstIndex n xs of
       Some i \<Rightarrow> Some i
     | None \<Rightarrow> map_option (\<lambda>j. length xs + j) (firstIndex n ys))"
  by (induction xs; cases "firstIndex n ys") (auto split: option.splits)

lemma firstIndex_less: "firstIndex n ls = Some p \<Longrightarrow> p < length ls"
  by (induction ls arbitrary: p) (auto split: if_splits)

lemma findLocal_reverse:
  "findLocal n ls = map_option (\<lambda>p. length ls - 1 - p) (firstIndex n (rev ls))"
proof (induction ls)
  case Nil
  show ?case by simp
next
  case (Cons l ls)
  show ?case
  proof (cases "firstIndex n (rev ls)")
    case None
    with Cons show ?thesis by (simp add: firstIndex_append)
  next
    case (Some p)
    then have "p < length ls" using firstIndex_less [of n "rev ls" p] by simp
    with Cons Some show ?thesis by (simp add: firstIndex_append Suc_diff_Suc Suc_diff_le)
  qed
qed

lemma findLocal_None: "findLocal n ls = None \<longleftrightarrow> (\<forall>l \<in> set ls. Local.name l \<noteq> n)"
  by (induction ls) (auto split: option.splits)

lemma findLocal_Some:
  "findLocal n ls = Some i \<Longrightarrow>
     i < length ls \<and> Local.name (ls ! i) = n \<and> (\<forall>j. i < j \<and> j < length ls \<longrightarrow> Local.name (ls ! j) \<noteq> n)"
proof (induction ls arbitrary: i)
  case Nil
  then show ?case by simp
next
  case (Cons l ls)
  show ?case
  proof (cases "findLocal n ls")
    case None
    with Cons.prems have i0: "i = 0" and nm: "Local.name l = n" by (auto split: if_splits)
    from None have "\<forall>l \<in> set ls. Local.name l \<noteq> n" by (simp add: findLocal_None)
    then have "\<forall>j. 0 < j \<and> j < length (l # ls) \<longrightarrow> Local.name ((l # ls) ! j) \<noteq> n"
      by (auto simp: nth_Cons split: nat.splits)
    with i0 nm show ?thesis by simp
  next
    case (Some k)
    with Cons.prems have ik: "i = Suc k" by simp
    from Cons.IH [OF Some] have k: "k < length ls" "Local.name (ls ! k) = n"
      "\<forall>j. k < j \<and> j < length ls \<longrightarrow> Local.name (ls ! j) \<noteq> n" by auto
    have "\<forall>j. Suc k < j \<and> j < length (l # ls) \<longrightarrow> Local.name ((l # ls) ! j) \<noteq> n"
      using k(3) by (auto simp: nth_Cons split: nat.splits)
    with ik k show ?thesis by simp
  qed
qed

lemma pushLocal_fields [simp]:
  "locals (pushLocal n st) = locals st @ [\<lparr>name = n, depth = Compiler.depth st\<rparr>]"
  "Compiler.depth (pushLocal n st) = Compiler.depth st"
  "Compiler.code (pushLocal n st) = Compiler.code st"
  "Compiler.constants (pushLocal n st) = Compiler.constants st"
  "nextId (pushLocal n st) = nextId st"
  by (simp_all add: pushLocal_def)

lemma fold_pushLocal_fields [simp]:
  "locals (fold pushLocal ps st) = locals st @ map (\<lambda>p. \<lparr>name = p, depth = Compiler.depth st\<rparr>) ps"
  "Compiler.depth (fold pushLocal ps st) = Compiler.depth st"
  "Compiler.code (fold pushLocal ps st) = Compiler.code st"
  "Compiler.constants (fold pushLocal ps st) = Compiler.constants st"
  "nextId (fold pushLocal ps st) = nextId st"
  by (induction ps arbitrary: st) simp_all

lemma enterFunction_fields [simp]:
  "locals (enterFunction ps st) =
     locals st @ \<lparr>name = ''#ret'', depth = Suc (Compiler.depth st)\<rparr>
       # map (\<lambda>p. \<lparr>name = p, depth = Suc (Compiler.depth st)\<rparr>) ps"
  "Compiler.depth (enterFunction ps st) = Suc (Compiler.depth st)"
  "Compiler.code (enterFunction ps st) = []"
  "Compiler.constants (enterFunction ps st) = Compiler.constants st"
  "nextId (enterFunction ps st) = nextId st"
  by (simp_all add: enterFunction_def Let_def)








lemma findLocal_snoc [simp]:
  "findLocal n (ls @ [\<lparr>name = n, depth = d\<rparr>]) = Some (length ls)"
  by (induction ls) simp_all

lemma popLocals_fields [simp]:
  "Compiler.depth (popLocals k st) = Compiler.depth st"
  "Compiler.constants (popLocals k st) = Compiler.constants st"
  "nextId (popLocals k st) = nextId st"
  by (induction k arbitrary: st) (simp_all add: popLocal_def)

lemma popLocal_fields [simp]:
  "Compiler.depth (popLocal st) = Compiler.depth st"
  "Compiler.constants (popLocal st) = Compiler.constants st"
  "Compiler.code (popLocal st) = Compiler.code st"
  "nextId (popLocal st) = nextId st"
  "locals (popLocal st) = butlast (locals st)"
  by (simp_all add: popLocal_def)

lemma appendsLocals_refl: "appendsLocals st st"
  by (simp add: appendsLocals_def)

lemma appendsLocals_same:
  "locals st' = locals st \<Longrightarrow> Compiler.depth st' = Compiler.depth st \<Longrightarrow> appendsLocals st st'"
  by (simp add: appendsLocals_def)

lemma appendsLocals_trans:
  "appendsLocals st st1 \<Longrightarrow> appendsLocals st1 st2 \<Longrightarrow> appendsLocals st st2"
  unfolding appendsLocals_def by auto

lemma appendsLocals_localsOk: "localsOk st \<Longrightarrow> appendsLocals st st' \<Longrightarrow> localsOk st'"
  unfolding appendsLocals_def localsOk_def by auto

lemma locals_popLocals:
  "locals (popLocals k st) = take (length (locals st) - k) (locals st)"
proof (induction k arbitrary: st)
  case 0
  show ?case by simp
next
  case (Suc k)
  show ?case by (simp add: Suc butlast_conv_take)
qed

lemma visit_FuncDecl_locals:
  assumes "visit (FuncDecl n ps body) st = Inr st'"
  shows "\<exists>st4. compileBlock body (enterFunction ps st) = Inr st4
     \<and> Compiler.depth st' = Compiler.depth st
     \<and> locals st' =
         take (length (locals st4)
               - (length (filter (\<lambda>l. Local.depth l = Compiler.depth st4) (locals st4)) - 1) - 1)
           (locals st4)
         @ [\<lparr>name = n, depth = Compiler.depth st\<rparr>]"
proof -
  from assms obtain st4 where b: "compileBlock body (enterFunction ps st) = Inr st4"
    by (auto split: if_splits sum.splits)
  let ?st5 = "emit [opnum Op_store, 0] st4"
  let ?st8 = "emit [opnum Op_return] (popLocal (popLocals
      (length (filter (\<lambda>l. Local.depth l = Compiler.depth ?st5) (locals ?st5)) - 1) ?st5))"
  let ?st10 = "pushLocal n (?st8\<lparr>Compiler.code := Compiler.code st,
      Compiler.depth := Compiler.depth st\<rparr>)"
  let ?fn = "Function n (Compiler.code ?st8)"
  from assms b have "st' = emit [opnum Op_constant,
        fst (addConstant (fst (newObject ?fn ?st10)) (snd (newObject ?fn ?st10)))]
      (snd (addConstant (fst (newObject ?fn ?st10)) (snd (newObject ?fn ?st10))))"
    by (simp add: Let_def split_beta split: if_splits)
  then have "locals st' = locals ?st10" and "Compiler.depth st' = Compiler.depth ?st10"
    by simp_all
  then have "Compiler.depth st' = Compiler.depth st
     \<and> locals st' =
         take (length (locals st4)
               - (length (filter (\<lambda>l. Local.depth l = Compiler.depth st4) (locals st4)) - 1) - 1)
           (locals st4)
         @ [\<lparr>name = n, depth = Compiler.depth st\<rparr>]"
    by (simp add: locals_popLocals butlast_conv_take)
  with b show ?thesis by blast
qed

lemma localsOk_enterFunction: "localsOk st \<Longrightarrow> localsOk (enterFunction ps st)"
  by (auto simp: localsOk_def)

lemma appendsLocals_visit:
  "localsOk st \<Longrightarrow> visit e st = Inr st' \<Longrightarrow> appendsLocals st st'"
  and appendsLocals_visitAll:
  "localsOk st \<Longrightarrow> visitAll as st = Inr st' \<Longrightarrow> appendsLocals st st'"
  and appendsLocals_compileBlock:
  "localsOk st \<Longrightarrow> compileBlock bs st = Inr st' \<Longrightarrow> appendsLocals st st'"
proof (induction e st and as st and bs st arbitrary: st' and st' and st'
    rule: visit_visitAll_compileBlock.induct)
  case (1 v st)
  then show ?case by (auto intro: appendsLocals_same)
next
  case (2 v st)
  then show ?case by (auto intro: appendsLocals_same)
next
  case (3 n st)
  from "3.prems"(2) show ?case
    by (auto simp: visitIdent_def Let_def intro: appendsLocals_same split: option.splits)
next
  case (4 op e st)
  from "4.prems"(2) obtain st1 where
    a: "visit e st = Inr st1" and r: "st' = emit [opnum Op_neg] st1"
    by (auto split: sum.splits if_splits)
  from "4.IH" [OF "4.prems"(1) a] r show ?case by (simp add: appendsLocals_def)
next
  case (5 op l r st)
  from "5.prems"(2) obtain st1 st2 b where
    a: "visit l st = Inr st1" and a2: "visit r st1 = Inr st2" and r: "st' = emit b st2"
    by (auto split: sum.splits if_splits)
  from "5.IH"(1) [OF "5.prems"(1) a] have s1: "appendsLocals st st1" .
  from appendsLocals_localsOk [OF "5.prems"(1) s1] have "localsOk st1" .
  from "5.IH"(2) [OF a this a2] have "appendsLocals st1 st2" .
  from appendsLocals_trans [OF s1 this] r show ?case by (simp add: appendsLocals_def)
next
  case (6 target args st)
  from "6.prems"(2) obtain st1 st2 where
    a: "visitAll args (emit [opnum Op_nil] st) = Inr st1"
    and t: "visit target st1 = Inr st2"
    and r: "st' = emit [opnum Op_invoke, length args] st2"
    by (auto split: sum.splits)
  from "6.prems"(1) have ok0: "localsOk (emit [opnum Op_nil] st)" by (simp add: localsOk_def)
  from "6.IH"(1) [OF ok0 a] have s1: "appendsLocals (emit [opnum Op_nil] st) st1" .
  from appendsLocals_localsOk [OF ok0 s1] have "localsOk st1" .
  from "6.IH"(2) [OF a this t] have "appendsLocals st1 st2" .
  from appendsLocals_trans [OF s1 this] r show ?case by (simp add: appendsLocals_def)
next
  case (7 n v st)
  from "7.prems"(2) obtain st1 where
    ne: "\<not> alreadyExists n st" and a: "visit v st = Inr st1" and r: "st' = pushLocal n st1"
    by (auto split: sum.splits if_splits)
  from "7.IH" [OF ne "7.prems"(1) a] have s1: "appendsLocals st st1" .
  then have "appendsLocals st1 st'" using r by (simp add: appendsLocals_def)
  from appendsLocals_trans [OF s1 this] show ?case .
next
  case (8 n params body st)
  from "8.prems"(2) have ne: "\<not> alreadyExists n st" by (auto split: if_splits)
  from visit_FuncDecl_locals [OF "8.prems"(2)] obtain st4 where
    b: "compileBlock body (enterFunction params st) = Inr st4"
    and d: "Compiler.depth st' = Compiler.depth st"
    and l: "locals st' =
         take (length (locals st4)
               - (length (filter (\<lambda>l. Local.depth l = Compiler.depth st4) (locals st4)) - 1) - 1)
           (locals st4)
         @ [\<lparr>name = n, depth = Compiler.depth st\<rparr>]"
    by blast
  from "8.IH" [OF ne refl refl refl localsOk_enterFunction [OF "8.prems"(1)] b]
  obtain new where d4: "Compiler.depth st4 = Suc (Compiler.depth st)"
    and l4: "locals st4 = locals (enterFunction params st) @ new"
    and n4: "\<forall>l \<in> set new. Local.depth l = Suc (Compiler.depth st)"
    by (auto simp: appendsLocals_def)
  let ?inner = "\<lparr>name = ''#ret'', depth = Suc (Compiler.depth st)\<rparr>
      # map (\<lambda>p. \<lparr>name = p, depth = Suc (Compiler.depth st)\<rparr>) params @ new"
  have l4': "locals st4 = locals st @ ?inner" using l4 by simp
  have f1: "filter (\<lambda>l. Local.depth l = Suc (Compiler.depth st)) (locals st) = []"
    using "8.prems"(1) by (auto simp: localsOk_def filter_empty_conv)
  have f2: "filter (\<lambda>l. Local.depth l = Suc (Compiler.depth st)) ?inner = ?inner"
    using n4 by (auto simp: filter_id_conv)
  have cnt: "length (filter (\<lambda>l. Local.depth l = Compiler.depth st4) (locals st4)) = length ?inner"
    unfolding d4 l4' filter_append f1 f2 by simp
  have "locals st' =
      take (length (locals st4) - (length ?inner - 1) - 1) (locals st4)
        @ [\<lparr>name = n, depth = Compiler.depth st\<rparr>]"
    using l cnt by simp
  then have "locals st' = locals st @ [\<lparr>name = n, depth = Compiler.depth st\<rparr>]"
    unfolding l4' by simp
  with d show ?case by (simp add: appendsLocals_def)
next
  case (9 e st)
  from "9.prems"(2) obtain st1 where
    a: "visit e st = Inr st1" and r: "st' = emit [opnum Op_print] st1"
    by (auto split: sum.splits)
  from "9.IH" [OF "9.prems"(1) a] r show ?case by (simp add: appendsLocals_def)
next
  case (10 st)
  then show ?case by (simp add: appendsLocals_refl)
next
  case (11 a as st)
  from "11.prems"(2) obtain st1 where
    a: "visit a st = Inr st1" and r: "visitAll as st1 = Inr st'"
    by (auto split: sum.splits)
  from "11.IH"(1) [OF "11.prems"(1) a] have s1: "appendsLocals st st1" .
  from appendsLocals_localsOk [OF "11.prems"(1) s1] have "localsOk st1" .
  from appendsLocals_trans [OF s1 "11.IH"(2) [OF a this r]] show ?case .
next
  case (12 st)
  then show ?case by (simp add: appendsLocals_refl)
next
  case (13 node rest st)
  let ?mid = "\<lambda>st1. (if \<not> isExpr node \<and> rest = []
      then emit [opnum Op_nil] (if isExpr node \<and> rest \<noteq> [] then emit [opnum Op_pop] st1 else st1)
      else (if isExpr node \<and> rest \<noteq> [] then emit [opnum Op_pop] st1 else st1))"
  from "13.prems"(2) obtain st1 where
    a: "visit node st = Inr st1" and r: "compileBlock rest (?mid st1) = Inr st'"
    by (auto simp: Let_def split: sum.splits)
  from "13.IH"(1) [OF "13.prems"(1) a] have s1: "appendsLocals st st1" .
  have s2: "appendsLocals st1 (?mid st1)" by (simp add: appendsLocals_def)
  from appendsLocals_trans [OF s1 s2] have s12: "appendsLocals st (?mid st1)" .
  from appendsLocals_localsOk [OF "13.prems"(1) s12] have ok: "localsOk (?mid st1)" .
  have "appendsLocals (?mid st1) st'"
    by (rule "13.IH"(2) [OF a refl refl refl _ ok r]) simp
  from appendsLocals_trans [OF s12 this] show ?case .
qed


lemma localsOk_visit: "localsOk st \<Longrightarrow> visit e st = Inr st' \<Longrightarrow> localsOk st'"
  using appendsLocals_localsOk appendsLocals_visit by blast

section \<open>Straight-line code\<close>

lemma decode_opnum [simp]: "decode (opnum op) = Some op"
  by (cases op) (simp_all add: decode_def)

lemma decode_numeral [simp]:
  "decode 0 = Some Op_const0" "decode (Suc 0) = Some Op_const1" "decode 1 = Some Op_const1"
  "decode 2 = Some Op_const2"
  "decode 3 = Some Op_constant" "decode 4 = Some Op_neg" "decode 5 = Some Op_add"
  "decode 6 = Some Op_sub" "decode 7 = Some Op_load" "decode 8 = Some Op_store"
  "decode 9 = Some Op_print" "decode 10 = Some Op_invoke" "decode 11 = Some Op_pop"
  "decode 12 = Some Op_nil" "decode 13 = Some Op_return"
  by (simp_all add: decode_def)

lemma operands_opnum [simp]: "operands (opnum op) = opcodeArgs op"
  by (simp add: operands_def)

lemma instrs_Nil: "instrs P []"
  by (simp add: instrs.simps)

lemma instrs_op0:
  "decode byte = Some op \<Longrightarrow> opcodeArgs op = 0 \<Longrightarrow> P op \<Longrightarrow> instrs P s \<Longrightarrow> instrs P (byte # s)"
  by (simp add: instrs.simps)

lemma instrs_op1:
  "decode byte = Some op \<Longrightarrow> opcodeArgs op = 1 \<Longrightarrow> P op \<Longrightarrow> instrs P s \<Longrightarrow>
     instrs P (byte # operand # s)"
  by (simp add: instrs.simps)

lemma opcodeArgs_cases: "opcodeArgs op = 0 \<or> opcodeArgs op = 1"
  by (cases op) simp_all

lemma instrs_rule_cases [consumes 1, case_names instrs_Nil instrs_op0 instrs_op1]:
  assumes "instrs P a"
    and "a = [] \<Longrightarrow> R"
    and "\<And>byte op s. a = byte # s \<Longrightarrow> decode byte = Some op \<Longrightarrow> opcodeArgs op = 0 \<Longrightarrow> P op \<Longrightarrow>
           instrs P s \<Longrightarrow> R"
    and "\<And>byte op s operand. a = byte # operand # s \<Longrightarrow> decode byte = Some op \<Longrightarrow>
           opcodeArgs op = 1 \<Longrightarrow> P op \<Longrightarrow> instrs P s \<Longrightarrow> R"
  shows R
proof (cases a)
  case Nil
  then show ?thesis by (rule assms(2))
next
  case (Cons byte s)
  with assms(1) obtain op where d: "decode byte = Some op" and p: "P op"
    and r: "if opcodeArgs op = 0 then instrs P s else s \<noteq> [] \<and> instrs P (tl s)"
    by (auto simp: instrs.simps split: option.splits)
  show ?thesis
  proof (cases "opcodeArgs op = 0")
    case True
    with r have "instrs P s" by simp
    from assms(3) [OF Cons d True p this] show ?thesis .
  next
    case False
    with opcodeArgs_cases [of op] have one: "opcodeArgs op = 1" by simp
    from r False obtain operand s' where s: "s = operand # s'" and i: "instrs P s'"
      by (cases s) auto
    from Cons s have "a = byte # operand # s'" by simp
    from assms(4) [OF this d one p i] show ?thesis .
  qed
qed

lemma instrs_rule_induct [consumes 1, case_names instrs_Nil instrs_op0 instrs_op1]:
  assumes "instrs P a"
    and "Q []"
    and "\<And>byte op s. decode byte = Some op \<Longrightarrow> opcodeArgs op = 0 \<Longrightarrow> P op \<Longrightarrow> instrs P s \<Longrightarrow>
           Q s \<Longrightarrow> Q (byte # s)"
    and "\<And>byte op s operand. decode byte = Some op \<Longrightarrow> opcodeArgs op = 1 \<Longrightarrow> P op \<Longrightarrow>
           instrs P s \<Longrightarrow> Q s \<Longrightarrow> Q (byte # operand # s)"
  shows "Q a"
  using assms(1)
proof (induction a rule: length_induct)
  case (1 a)
  from "1.prems" show ?case
  proof (cases rule: instrs_rule_cases)
    case instrs_Nil
    with assms(2) show ?thesis by simp
  next
    case (instrs_op0 byte op s)
    from "1.IH" instrs_op0(1,5) have "Q s" by simp
    from assms(3) [OF instrs_op0(2,3,4,5) this] instrs_op0(1) show ?thesis by simp
  next
    case (instrs_op1 byte op s operand)
    from "1.IH" instrs_op1(1,5) have "Q s" by simp
    from assms(4) [OF instrs_op1(2,3,4,5) this] instrs_op1(1) show ?thesis by simp
  qed
qed

lemma instrs_append: "instrs P s1 \<Longrightarrow> instrs P s2 \<Longrightarrow> instrs P (s1 @ s2)"
  by (induction rule: instrs_rule_induct) (auto intro: instrs_Nil instrs_op0 instrs_op1)

lemma instrs_single0: "opcodeArgs op = 0 \<Longrightarrow> P op \<Longrightarrow> instrs P [opnum op]"
  by (rule instrs_op0 [where op = op]) (simp_all add: instrs_Nil)

lemma instrs_single1: "opcodeArgs op = 1 \<Longrightarrow> P op \<Longrightarrow> instrs P [opnum op, a]"
  by (rule instrs_op1 [where op = op]) (simp_all add: instrs_Nil)

lemma netEffect_append:
  "instrs P s1 \<Longrightarrow> netEffect (s1 @ s2) = netEffect s1 + netEffect s2"
  by (induction rule: instrs_rule_induct) (auto simp: operands_def)



lemma push_fields [simp]:
  "stack (push v vm) = stack vm @ [v]"
  "callStack (push v vm) = callStack vm"
  "module (push v vm) = module vm"
  "halted (push v vm) = halted vm"
  by (simp_all add: push_def)


lemma emits_refl: "emits st st 0"
  by (simp add: emits_def instrs_Nil)

lemma emits_trans: "emits st st1 d1 \<Longrightarrow> emits st1 st2 d2 \<Longrightarrow> emits st st2 (d1 + d2)"
  unfolding emits_def
  by (auto simp: netEffect_append intro: instrs_append)

lemma emits_emit0:
  "opcodeArgs op = 0 \<Longrightarrow> frameOp op \<Longrightarrow> emits st (emit [opnum op] st) (delta op)"
proof -
  assume a: "opcodeArgs op = 0" "frameOp op"
  then have "op \<noteq> Op_invoke" by auto
  with a show ?thesis
    unfolding emits_def by (auto intro!: instrs_single0)
qed

lemma emits_code1:
  assumes c: "Compiler.code st' = Compiler.code st @ [opnum op, a]"
    and a: "opcodeArgs op = 1" and f: "frameOp op"
  shows "emits st st' (delta op - (if op = Op_invoke then int a else 0))"
proof -
  have i: "instrs frameOp [opnum op, a]"
    by (rule instrs_single1) fact+
  have n: "netEffect [opnum op, a] = delta op - (if op = Op_invoke then int a else 0)"
    by (simp add: operands_def decode_opnum a)
  from c i n show ?thesis unfolding emits_def by blast
qed

lemma emits_emit1:
  "opcodeArgs op = 1 \<Longrightarrow> frameOp op \<Longrightarrow> Compiler.code st1 = Compiler.code st \<Longrightarrow>
     emits st (emit [opnum op, a] st1) (delta op - (if op = Op_invoke then int a else 0))"
  by (rule emits_code1) simp_all

lemma emits_visitIntLit: "emits st (visitIntLit v st) 1"
proof (cases "v = Finite 0")
  case True
  then show ?thesis
    using emits_emit0 [of Op_const0 st] by (simp add: visitIntLit_def frameOp_def)
next
  case False
  then show ?thesis
    using emits_emit1 [where op = Op_constant and st = st
        and ?st1.0 = "snd (addConstant (fst (newObject (Number v) st)) (snd (newObject (Number v) st)))"]
    by (simp add: visitIntLit_def frameOp_def split_beta)
qed

lemma emits_visitStringLit: "emits st (visitStringLit v st) 1"
  using emits_emit1 [where op = Op_constant and st = st
      and ?st1.0 = "snd (addConstant (fst (newObject (String v) st)) (snd (newObject (String v) st)))"]
  by (simp add: visitStringLit_def frameOp_def split_beta)

lemma visit_FuncDecl_code:
  assumes "visit (FuncDecl n ps body) st = Inr st'"
  shows "\<exists>i. Compiler.code st' = Compiler.code st @ [opnum Op_constant, i]"
  using assms
  by (auto simp: Let_def split_beta split: if_splits sum.splits)

lemma exprTree_statement:
  "exprTree e \<Longrightarrow> statementTree e \<and> isExpr e \<and> \<not> isDecl e"
  by (cases e) simp_all

lemma emits_visit:
  "statementTree e \<Longrightarrow> visit e st = Inr st' \<Longrightarrow>
     emits st st' (if isExpr e \<or> isDecl e then 1 else 0)"
  and emits_visitAll:
  "\<forall>a \<in> set as. exprTree a \<Longrightarrow> visitAll as st = Inr st' \<Longrightarrow>
     emits st st' (int (length as))"
  and emits_compileBlock:
  "\<forall>s \<in> set bs. statementTree s \<Longrightarrow> compileBlock bs st = Inr st' \<Longrightarrow>
     emits st st' (int (declCount bs) + (if bs = [] then 0 else 1))"
proof (induction e st and as st and bs st arbitrary: st' and st' and st'
    rule: visit_visitAll_compileBlock.induct)
  case (1 v st)
  then show ?case using emits_visitIntLit [of st v] by auto
next
  case (2 v st)
  then show ?case using emits_visitStringLit [of st v] by auto
next
  case (3 n st)
  from "3.prems" obtain i where "st' = emit [opnum Op_load, i] st"
    by (auto simp: visitIdent_def Let_def split: option.splits)
  then show ?case
    using emits_emit1 [where op = Op_load and st = st and ?st1.0 = st and a = i]
    by (simp add: frameOp_def)
next
  case (4 op e st)
  from "4.prems" obtain st1 where
    a: "visit e st = Inr st1" and r: "st' = emit [opnum Op_neg] st1"
    by (auto split: sum.splits if_splits)
  from "4.prems"(1) have t: "statementTree e" "isExpr e"
    using exprTree_statement [of e] by simp_all
  from "4.IH" [OF t(1) a] t(2) have "emits st st1 1" by simp
  from emits_trans [OF this emits_emit0 [of Op_neg st1]] r
  show ?case by (simp add: frameOp_def)
next
  case (5 op l r st)
  from "5.prems" obtain st1 st2 where
    a: "visit l st = Inr st1" and b: "visit r st1 = Inr st2"
    and r: "st' = emit [opnum Op_add] st2 \<or> st' = emit [opnum Op_sub] st2"
    by (auto split: sum.splits if_splits)
  from "5.prems"(1) have t: "statementTree l" "isExpr l" "statementTree r" "isExpr r"
    using exprTree_statement [of l] exprTree_statement [of r] by simp_all
  from "5.IH"(1) [OF t(1) a] t(2) have e1: "emits st st1 1" by simp
  from "5.IH"(2) [OF a t(3) b] t(4) have e2: "emits st1 st2 1" by simp
  have e: "emits st2 st' (- 1)"
    using r emits_emit0 [of Op_add st2] emits_emit0 [of Op_sub st2]
    by (auto simp: frameOp_def)
  from emits_trans [OF emits_trans [OF e1 e2] e]
  show ?case by simp
next
  case (6 target args st)
  from "6.prems" obtain st1 st2 where
    a: "visitAll args (emit [opnum Op_nil] st) = Inr st1" and b: "visit target st1 = Inr st2"
    and r: "st' = emit [opnum Op_invoke, length args] st2"
    by (auto split: sum.splits)
  from "6.prems"(1) have t: "\<forall>a \<in> set args. exprTree a" "statementTree target" "isExpr target"
    using exprTree_statement [of target] by simp_all
  have e0: "emits st (emit [opnum Op_nil] st) 1"
    using emits_emit0 [of Op_nil st] by (simp add: frameOp_def)
  from "6.IH"(1) [OF t(1) a] have e1: "emits (emit [opnum Op_nil] st) st1 (int (length args))" .
  from "6.IH"(2) [OF a t(2) b] t(3) have e2: "emits st1 st2 1" by simp
  have e3: "emits st2 st' (- 1 - int (length args))"
    using emits_emit1 [where op = Op_invoke and st = st2 and ?st1.0 = st2 and a = "length args"] r
    by (simp add: frameOp_def)
  from emits_trans [OF emits_trans [OF emits_trans [OF e0 e1] e2] e3]
  show ?case by simp
next
  case (7 n v st)
  from "7.prems" obtain st1 where
    ne: "\<not> alreadyExists n st" and a: "visit v st = Inr st1" and r: "st' = pushLocal n st1"
    by (auto split: sum.splits if_splits)
  from "7.prems"(1) have t: "statementTree v" "isExpr v"
    using exprTree_statement [of v] by simp_all
  from "7.IH" [OF ne t(1) a] t(2) have "emits st st1 1" by simp
  then show ?case using r by (simp add: emits_def)
next
  case (8 n params body st)
  from visit_FuncDecl_code [OF "8.prems"(2)] obtain i where
    "Compiler.code st' = Compiler.code st @ [opnum Op_constant, i]" by blast
  from emits_code1 [OF this] show ?case
    by (simp add: frameOp_def)
next
  case (9 e st)
  from "9.prems" obtain st1 where
    a: "visit e st = Inr st1" and r: "st' = emit [opnum Op_print] st1"
    by (auto split: sum.splits)
  from "9.prems"(1) have t: "statementTree e" "isExpr e"
    using exprTree_statement [of e] by simp_all
  from "9.IH" [OF t(1) a] t(2) have "emits st st1 1" by simp
  from emits_trans [OF this emits_emit0 [of Op_print st1]] r
  show ?case by (simp add: frameOp_def)
next
  case (10 st)
  then show ?case by (simp add: emits_refl)
next
  case (11 a as st)
  from "11.prems" obtain st1 where
    a: "visit a st = Inr st1" and r: "visitAll as st1 = Inr st'"
    by (auto split: sum.splits)
  from "11.prems"(1) have t: "statementTree a" "isExpr a" "\<forall>x \<in> set as. exprTree x"
    using exprTree_statement [of a] by simp_all
  from "11.IH"(1) [OF t(1) a] t(2) have e1: "emits st st1 1" by simp
  from emits_trans [OF e1 "11.IH"(2) [OF a t(3) r]] show ?case by simp
next
  case (12 st)
  then show ?case by (simp add: declCount_def emits_refl)
next
  case (13 node rest st)
  let ?mid = "\<lambda>st1. (if \<not> isExpr node \<and> rest = []
      then emit [opnum Op_nil] (if isExpr node \<and> rest \<noteq> [] then emit [opnum Op_pop] st1 else st1)
      else (if isExpr node \<and> rest \<noteq> [] then emit [opnum Op_pop] st1 else st1))"
  from "13.prems"(2) obtain st1 where
    a: "visit node st = Inr st1" and r: "compileBlock rest (?mid st1) = Inr st'"
    by (auto simp: Let_def split: sum.splits)
  from "13.prems"(1) have pn: "statementTree node" and pr: "\<forall>s \<in> set rest. statementTree s"
    by simp_all
  have e1: "emits st st1 (if isExpr node \<or> isDecl node then 1 else 0)"
    by (rule "13.IH"(1) [OF pn a])
  have e2: "emits st1 (?mid st1)
      ((if isExpr node \<and> rest \<noteq> [] then - 1 else 0) + (if \<not> isExpr node \<and> rest = [] then 1 else 0))"
    using emits_emit0 [of Op_pop st1] emits_emit0 [of Op_nil st1]
    by (auto simp: frameOp_def emits_refl)
  have e3: "emits (?mid st1) st' (int (declCount rest) + (if rest = [] then 0 else 1))"
    by (rule "13.IH"(2) [OF a refl refl refl _ pr r]) simp
  have ed: "isDecl node \<Longrightarrow> \<not> isExpr node" by (cases node) simp_all
  from emits_trans [OF emits_trans [OF e1 e2] e3] ed
  show ?case by (auto simp: declCount_def split: if_splits)
qed

section \<open>The code of a compiled module and its run\<close>



lemma poolOk_emit [simp]: "poolOk (emit bs st) = poolOk st"
  by (simp add: poolOk_def)











lemma stackSet_fields [simp]:
  "callStack (stackSet i v vm) = callStack vm"
  "module (stackSet i v vm) = module vm"
  "halted (stackSet i v vm) = halted vm"
  by (cases i; simp)+














subsection \<open>The execution of the code of a block\<close>





text \<open>Without an invocation the execution is that of as many steps as instructions.\<close>

lemma runCode_straight:
  "instrs straightOp seg \<Longrightarrow>
     runCode fuel seg vm =
       (case steps (instrCount seg) vm of Inl err \<Rightarrow> None | Inr vm' \<Rightarrow> Some vm')"
proof (induction arbitrary: vm rule: instrs_rule_induct)
  case instrs_Nil
  then show ?case by simp
next
  case (instrs_op0 byte op s)
  from instrs_op0.hyps(3) have "op \<noteq> Op_invoke" by (simp add: straightOp_def)
  then show ?case
    by (simp add: operands_def instrs_op0.hyps instrs_op0.IH split: sum.splits)
next
  case (instrs_op1 byte op s operand)
  from instrs_op1.hyps(3) have "op \<noteq> Op_invoke" by (simp add: straightOp_def)
  then show ?case
    by (simp add: operands_def instrs_op1.hyps instrs_op1.IH split: sum.splits)
qed

section \<open>Single instructions of the virtual machine\<close>

text \<open>
  Claim C7. The next byte of the current frame is \<open>add\<close> and the stack ends with the left
  operand \<open>l\<close> and, on top of it, the right operand \<open>r\<close>. Both are popped. If one of them
  is a string, the concatenation of their renderings is pushed; if both are numbers,
  their sum; in every other case the machine throws the type error, the two operands
  popped. The sum is that of doubles: it is the sum of the integers when the operands and
  the sum are below \<open>2 ^ 53\<close> in absolute value, and otherwise rounded, so that
  \<open>2 ^ 53 + 1\<close> is \<open>2 ^ 53\<close>. The rendering of a string is the string, that of nil is
  \<open>nil\<close>, that of a function \<open><#fn name>\<close>; that of a number from 0 below \<open>2 ^ 53\<close> is its
  decimal numeral, with a minus sign before it for the negative of such a number, and
  that of \<open>10 ^ 21\<close> is in exponent notation.
\<close>

theorem add_semantics:
  assumes cs: "callStack vm = fs @ [f]"
    and ipf: "ip f < length (CallFrame.code f)"
    and op: "CallFrame.code f ! ip f = opnum Op_add"
    and st: "stack vm = s @ [l, r]"
  shows "((\<exists>t. l = String t) \<or> (\<exists>t. r = String t) \<longrightarrow>
            handleInstr vm =
              Inr (vm\<lparr>callStack := fs @ [f\<lparr>ip := Suc (ip f)\<rparr>],
                      stack := s @ [String (valueToString l @ valueToString r)]\<rparr>))
       \<and> (\<forall>a b. l = Number a \<and> r = Number b \<longrightarrow>
            handleInstr vm =
              Inr (vm\<lparr>callStack := fs @ [f\<lparr>ip := Suc (ip f)\<rparr>],
                      stack := s @ [Number (addNumber a b)]\<rparr>))
       \<and> (\<not> ((\<exists>t. l = String t) \<or> (\<exists>t. r = String t))
            \<and> \<not> (\<exists>a b. l = Number a \<and> r = Number b) \<longrightarrow>
            handleInstr vm =
              Inl (TypeMismatch [typeOf l, typeOf r] ''+'',
                   vm\<lparr>callStack := fs @ [f\<lparr>ip := Suc (ip f)\<rparr>], stack := s\<rparr>))
       \<and> (\<forall>a b. \<bar>a\<bar> < 2 ^ 53 \<and> \<bar>b\<bar> < 2 ^ 53 \<and> \<bar>a + b\<bar> < 2 ^ 53 \<longrightarrow>
            addNumber (Finite a) (Finite b) = Finite (a + b))
       \<and> addNumber (Finite (2 ^ 53)) (Finite 1) = Finite (2 ^ 53)
       \<and> (\<forall>t. valueToString (String t) = t)
       \<and> valueToString NilValue = ''nil''
       \<and> (\<forall>n c. valueToString (Function n c) = ''<#fn '' @ n @ ''>'')
       \<and> (\<forall>n. 0 \<le> n \<and> n < 2 ^ 53 \<longrightarrow>
            isNumeral (valueToString (Number (Finite n)))
            \<and> decimalValue (valueToString (Number (Finite n))) = n)
       \<and> (\<forall>n. 0 < n \<and> n < 2 ^ 53 \<longrightarrow>
            valueToString (Number (Finite (- n))) = CHR ''-'' # valueToString (Number (Finite n)))
       \<and> valueToString (Number (Finite (10 ^ 21))) = ''1e+21''"
proof -
  have machine: "((\<exists>t. l = String t) \<or> (\<exists>t. r = String t) \<longrightarrow>
            handleInstr vm =
              Inr (vm\<lparr>callStack := fs @ [f\<lparr>ip := Suc (ip f)\<rparr>],
                      stack := s @ [String (valueToString l @ valueToString r)]\<rparr>))
       \<and> (\<forall>a b. l = Number a \<and> r = Number b \<longrightarrow>
            handleInstr vm =
              Inr (vm\<lparr>callStack := fs @ [f\<lparr>ip := Suc (ip f)\<rparr>],
                      stack := s @ [Number (addNumber a b)]\<rparr>))
       \<and> (\<not> ((\<exists>t. l = String t) \<or> (\<exists>t. r = String t))
            \<and> \<not> (\<exists>a b. l = Number a \<and> r = Number b) \<longrightarrow>
            handleInstr vm =
              Inl (TypeMismatch [typeOf l, typeOf r] ''+'',
                   vm\<lparr>callStack := fs @ [f\<lparr>ip := Suc (ip f)\<rparr>], stack := s\<rparr>))"
    using cs ipf op st
    by (cases l; cases r)
       (simp_all add: handleInstr_def readByte_def currentFrame_def decode_def push_def pop_def
          Let_def butlast_append)
  have exact: "\<forall>a b. \<bar>a\<bar> < 2 ^ 53 \<and> \<bar>b\<bar> < 2 ^ 53 \<and> \<bar>a + b\<bar> < 2 ^ 53 \<longrightarrow>
            addNumber (Finite a) (Finite b) = Finite (a + b)"
    by (simp add: roundDouble_small)
  have rounded: "addNumber (Finite (2 ^ 53)) (Finite 1) = Finite (2 ^ 53)"
    by code_simp
  have numeral: "\<forall>n. 0 \<le> n \<and> n < 2 ^ 53 \<longrightarrow>
            isNumeral (valueToString (Number (Finite n)))
            \<and> decimalValue (valueToString (Number (Finite n))) = n"
    by (simp add: renderMagnitude_safe isNumeral_decimal decimalValue_decimal)
  have negative: "\<forall>n. 0 < n \<and> n < 2 ^ 53 \<longrightarrow>
            valueToString (Number (Finite (- n))) = CHR ''-'' # valueToString (Number (Finite n))"
    by simp
  have large: "valueToString (Number (Finite (10 ^ 21))) = ''1e+21''"
    by code_simp
  from machine exact rounded numeral negative large show ?thesis
    by simp
qed

text \<open>
  The examples of the claim: \<open>1 + 'a'\<close>, \<open>'a' + 1\<close>, \<open>1 + 2\<close>, and \<open>nil + 1\<close>; then
  \<open>'x' + 407\<close>.
\<close>

theorem add_semantics_witness:
  "handleInstr
     \<lparr>module = \<lparr>Module.constants = [], code = [5, 13]\<rparr>,
      callStack = [\<lparr>ip = 0, code = [5, 13], stackOffset = Idx 0\<rparr>],
      stack = [Number (Finite 1), String ''a''], stackProps = [], halted = False, console = []\<rparr>
   = Inr \<lparr>module = \<lparr>Module.constants = [], code = [5, 13]\<rparr>,
      callStack = [\<lparr>ip = 1, code = [5, 13], stackOffset = Idx 0\<rparr>],
      stack = [String ''1a''], stackProps = [], halted = False, console = []\<rparr>
   \<and> handleInstr
     \<lparr>module = \<lparr>Module.constants = [], code = [5, 13]\<rparr>,
      callStack = [\<lparr>ip = 0, code = [5, 13], stackOffset = Idx 0\<rparr>],
      stack = [String ''a'', Number (Finite 1)], stackProps = [], halted = False, console = []\<rparr>
   = Inr \<lparr>module = \<lparr>Module.constants = [], code = [5, 13]\<rparr>,
      callStack = [\<lparr>ip = 1, code = [5, 13], stackOffset = Idx 0\<rparr>],
      stack = [String ''a1''], stackProps = [], halted = False, console = []\<rparr>
   \<and> handleInstr
     \<lparr>module = \<lparr>Module.constants = [], code = [5, 13]\<rparr>,
      callStack = [\<lparr>ip = 0, code = [5, 13], stackOffset = Idx 0\<rparr>],
      stack = [Number (Finite 1), Number (Finite 2)], stackProps = [], halted = False, console = []\<rparr>
   = Inr \<lparr>module = \<lparr>Module.constants = [], code = [5, 13]\<rparr>,
      callStack = [\<lparr>ip = 1, code = [5, 13], stackOffset = Idx 0\<rparr>],
      stack = [Number (Finite 3)], stackProps = [], halted = False, console = []\<rparr>
   \<and> handleInstr
     \<lparr>module = \<lparr>Module.constants = [], code = [5, 13]\<rparr>,
      callStack = [\<lparr>ip = 0, code = [5, 13], stackOffset = Idx 0\<rparr>],
      stack = [NilValue, Number (Finite 1)], stackProps = [], halted = False, console = []\<rparr>
   = Inl (TypeMismatch [''nil'', ''number''] ''+'',
      \<lparr>module = \<lparr>Module.constants = [], code = [5, 13]\<rparr>,
       callStack = [\<lparr>ip = 1, code = [5, 13], stackOffset = Idx 0\<rparr>],
       stack = [], stackProps = [], halted = False, console = []\<rparr>)
   \<and> handleInstr
     \<lparr>module = \<lparr>Module.constants = [], code = [5, 13]\<rparr>,
      callStack = [\<lparr>ip = 0, code = [5, 13], stackOffset = Idx 0\<rparr>],
      stack = [String ''x'', Number (Finite 407)], stackProps = [], halted = False, console = []\<rparr>
   = Inr \<lparr>module = \<lparr>Module.constants = [], code = [5, 13]\<rparr>,
      callStack = [\<lparr>ip = 1, code = [5, 13], stackOffset = Idx 0\<rparr>],
      stack = [String ''x407''], stackProps = [], halted = False, console = []\<rparr>
   \<and> isNumeral ''407'' \<and> decimalValue ''407'' = 407"
proof -
  have r1: "valueToString (Number (Finite 1)) = ''1''"
    and r407: "valueToString (Number (Finite 407)) = ''407''"
    and n407: "isNumeral ''407''" "decimalValue ''407'' = 407"
    by code_simp+
  show ?thesis
  using
    add_semantics [of
      "\<lparr>module = \<lparr>Module.constants = [], code = [5, 13]\<rparr>,
        callStack = [\<lparr>ip = 0, code = [5, 13], stackOffset = Idx 0\<rparr>],
        stack = [Number (Finite 1), String ''a''], stackProps = [], halted = False, console = []\<rparr>"
      "[]" "\<lparr>ip = 0, code = [5, 13], stackOffset = Idx 0\<rparr>" "[]" "Number (Finite 1)" "String ''a''"]
    add_semantics [of
      "\<lparr>module = \<lparr>Module.constants = [], code = [5, 13]\<rparr>,
        callStack = [\<lparr>ip = 0, code = [5, 13], stackOffset = Idx 0\<rparr>],
        stack = [String ''a'', Number (Finite 1)], stackProps = [], halted = False, console = []\<rparr>"
      "[]" "\<lparr>ip = 0, code = [5, 13], stackOffset = Idx 0\<rparr>" "[]" "String ''a''" "Number (Finite 1)"]
    add_semantics [of
      "\<lparr>module = \<lparr>Module.constants = [], code = [5, 13]\<rparr>,
        callStack = [\<lparr>ip = 0, code = [5, 13], stackOffset = Idx 0\<rparr>],
        stack = [Number (Finite 1), Number (Finite 2)], stackProps = [], halted = False, console = []\<rparr>"
      "[]" "\<lparr>ip = 0, code = [5, 13], stackOffset = Idx 0\<rparr>" "[]" "Number (Finite 1)" "Number (Finite 2)"]
    add_semantics [of
      "\<lparr>module = \<lparr>Module.constants = [], code = [5, 13]\<rparr>,
        callStack = [\<lparr>ip = 0, code = [5, 13], stackOffset = Idx 0\<rparr>],
        stack = [NilValue, Number (Finite 1)], stackProps = [], halted = False, console = []\<rparr>"
      "[]" "\<lparr>ip = 0, code = [5, 13], stackOffset = Idx 0\<rparr>" "[]" "NilValue" "Number (Finite 1)"]
    add_semantics [of
      "\<lparr>module = \<lparr>Module.constants = [], code = [5, 13]\<rparr>,
        callStack = [\<lparr>ip = 0, code = [5, 13], stackOffset = Idx 0\<rparr>],
        stack = [String ''x'', Number (Finite 407)], stackProps = [], halted = False, console = []\<rparr>"
      "[]" "\<lparr>ip = 0, code = [5, 13], stackOffset = Idx 0\<rparr>" "[]" "String ''x''" "Number (Finite 407)"]
    by (simp add: r1 r407 n407 roundDouble_small del: valueToString.simps)
qed

text \<open>
  Claim C8. The next bytes of the current frame are \<open>invoke\<close> and its operand \<open>argc\<close>,
  and \<open>callee\<close> is on top of the stack. The callee is popped. If it is a function, a
  frame with instruction pointer 0, the function's code and the stack offset
  \<open>length s - 1 - argc\<close> is pushed, \<open>s\<close> being the stack without the callee; if it is
  anything else, the machine throws the not-invocable error, and the stack it leaves is
  \<open>s\<close>. When \<open>s\<close> ends with a nil placeholder and \<open>argc\<close> arguments, that offset is the
  index of the placeholder.
\<close>

theorem invoke_semantics:
  assumes cs: "callStack vm = fs @ [f]"
    and ipf: "Suc (ip f) < length (CallFrame.code f)"
    and op: "CallFrame.code f ! ip f = opnum Op_invoke"
    and arg: "CallFrame.code f ! Suc (ip f) = argc"
    and st: "stack vm = s @ [callee]"
  shows "(\<forall>n c. callee = Function n c \<longrightarrow>
            handleInstr vm =
              Inr (vm\<lparr>callStack := fs @ [f\<lparr>ip := ip f + 2\<rparr>,
                        \<lparr>ip = 0, code = c, stackOffset = Idx (int (length s) - 1 - int argc)\<rparr>],
                      stack := s\<rparr>))
       \<and> ((\<forall>n c. callee \<noteq> Function n c) \<longrightarrow>
            handleInstr vm =
              Inl (NotInvocable (typeOf callee),
                   vm\<lparr>callStack := fs @ [f\<lparr>ip := ip f + 2\<rparr>], stack := s\<rparr>))
       \<and> (\<forall>pre args. s = pre @ [NilValue] @ args \<and> length args = argc \<longrightarrow>
            int (length s) - 1 - int argc = int (length pre) \<and> s ! length pre = NilValue)"
  using cs ipf op arg st
  by (cases callee)
     (auto simp add: handleInstr_def readByte_def currentFrame_def decode_def push_def pop_def
        Let_def butlast_append nth_append)

text \<open>
  A call of a function with two arguments, and the call of a string: the stack is
  \<open>x, nil, 2, 3, callee\<close>.
\<close>

theorem invoke_semantics_witness:
  "handleInstr
     \<lparr>module = \<lparr>Module.constants = [], code = [10, 2, 13]\<rparr>,
      callStack = [\<lparr>ip = 0, code = [10, 2, 13], stackOffset = Idx 0\<rparr>],
      stack = [Number (Finite 7), NilValue, Number (Finite 2), Number (Finite 3), Function ''add'' [7, 1, 13]],
      stackProps = [], halted = False, console = []\<rparr>
   = Inr \<lparr>module = \<lparr>Module.constants = [], code = [10, 2, 13]\<rparr>,
      callStack = [\<lparr>ip = 2, code = [10, 2, 13], stackOffset = Idx 0\<rparr>,
                   \<lparr>ip = 0, code = [7, 1, 13], stackOffset = Idx 1\<rparr>],
      stack = [Number (Finite 7), NilValue, Number (Finite 2), Number (Finite 3)],
      stackProps = [], halted = False, console = []\<rparr>
   \<and> handleInstr
     \<lparr>module = \<lparr>Module.constants = [], code = [10, 2, 13]\<rparr>,
      callStack = [\<lparr>ip = 0, code = [10, 2, 13], stackOffset = Idx 0\<rparr>],
      stack = [Number (Finite 7), NilValue, Number (Finite 2), Number (Finite 3), String ''f''],
      stackProps = [], halted = False, console = []\<rparr>
   = Inl (NotInvocable ''string'',
      \<lparr>module = \<lparr>Module.constants = [], code = [10, 2, 13]\<rparr>,
       callStack = [\<lparr>ip = 2, code = [10, 2, 13], stackOffset = Idx 0\<rparr>],
       stack = [Number (Finite 7), NilValue, Number (Finite 2), Number (Finite 3)],
       stackProps = [], halted = False, console = []\<rparr>)
   \<and> [Number (Finite 7), NilValue, Number (Finite 2), Number (Finite 3)] ! 1 = NilValue"
  using
    invoke_semantics [of
      "\<lparr>module = \<lparr>Module.constants = [], code = [10, 2, 13]\<rparr>,
        callStack = [\<lparr>ip = 0, code = [10, 2, 13], stackOffset = Idx 0\<rparr>],
        stack = [Number (Finite 7), NilValue, Number (Finite 2), Number (Finite 3), Function ''add'' [7, 1, 13]],
        stackProps = [], halted = False, console = []\<rparr>"
      "[]" "\<lparr>ip = 0, code = [10, 2, 13], stackOffset = Idx 0\<rparr>" 2
      "[Number (Finite 7), NilValue, Number (Finite 2), Number (Finite 3)]" "Function ''add'' [7, 1, 13]"]
    invoke_semantics [of
      "\<lparr>module = \<lparr>Module.constants = [], code = [10, 2, 13]\<rparr>,
        callStack = [\<lparr>ip = 0, code = [10, 2, 13], stackOffset = Idx 0\<rparr>],
        stack = [Number (Finite 7), NilValue, Number (Finite 2), Number (Finite 3), String ''f''],
        stackProps = [], halted = False, console = []\<rparr>"
      "[]" "\<lparr>ip = 0, code = [10, 2, 13], stackOffset = Idx 0\<rparr>" 2
      "[Number (Finite 7), NilValue, Number (Finite 2), Number (Finite 3)]" "String ''f''"]
  by simp

text \<open>
  Claim C10. The program \<open>storeProgram\<close> compiles. After 15 instructions the machine is
  about to execute \<open>store 0\<close> in a frame whose stack offset is \<open>-1\<close>, so the target index
  is \<open>-1\<close>, outside the stack, which holds two values. The instruction does not throw:
  it pops the value and leaves it as the property \<open>-1\<close> of the array.
\<close>

theorem store_below_zero_not_rejected:
  "(case compile storeProgram of
      Inl err \<Rightarrow> False
    | Inr m \<Rightarrow>
       (case steps 15 (newVM m) of
          Inl err \<Rightarrow> False
        | Inr vm \<Rightarrow>
           CallFrame.code (currentFrame vm) ! ip (currentFrame vm) = opnum Op_store
           \<and> CallFrame.code (currentFrame vm) ! Suc (ip (currentFrame vm)) = 0
           \<and> stackOffset (currentFrame vm) = Idx (- 1)
           \<and> stack vm = [Function ''f'' [3, 0, 8, 0, 11, 11, 11, 13], Number (Finite 1)]
           \<and> (case handleInstr vm of
                 Inl err \<Rightarrow> False
               | Inr vm' \<Rightarrow>
                  stack vm' = [Function ''f'' [3, 0, 8, 0, 11, 11, 11, 13]]
                  \<and> stackProps vm' = [(Idx (- 1), Number (Finite 1))])))"
  unfolding storeProgram_def
  by code_simp


section \<open>The constant pool and the literals\<close>

text \<open>
  Claim C1. The program of the two statements \<open>5\<close> and \<open>5\<close> compiles to a pool with
  two entries, one for each literal, and each load refers to its own entry: the scan
  of \<open>addConstant\<close> compares the new object with the entries by identity, and the object
  of a literal is always new.
\<close>

theorem addConstant_keeps_equal_literals_apart:
  "compile [IntLit (Finite 5), IntLit (Finite 5)] =
     Inr \<lparr>Module.constants = [Number (Finite 5), Number (Finite 5)], code = [3, 0, 11, 3, 1, 13]\<rparr>
   \<and> compile [Binary T_plus (StringLit ''a'') (StringLit ''a'')] =
     Inr \<lparr>Module.constants = [String ''a'', String ''a''], code = [3, 0, 3, 1, 5, 13]\<rparr>"
  by code_simp

text \<open>
  Claim C2. Only the literal \<open>0\<close> compiles to its own opcode: \<open>1\<close> and \<open>2\<close> compile to
  a load of a pool entry, like \<open>7\<close>. The machine does execute \<open>const1\<close> and \<open>const2\<close>: a
  module of the code \<open>const1, return\<close> yields 1, one of \<open>const2, return\<close> yields 2.
\<close>

theorem visitIntLit_fast_path_only_for_zero:
  "compile [IntLit (Finite 0)] = Inr \<lparr>Module.constants = [], code = [0, 13]\<rparr>
   \<and> compile [IntLit (Finite 1)] = Inr \<lparr>Module.constants = [Number (Finite 1)], code = [3, 0, 13]\<rparr>
   \<and> compile [IntLit (Finite 2)] = Inr \<lparr>Module.constants = [Number (Finite 2)], code = [3, 0, 13]\<rparr>
   \<and> compile [IntLit (Finite 7)] = Inr \<lparr>Module.constants = [Number (Finite 7)], code = [3, 0, 13]\<rparr>
   \<and> run (newVM \<lparr>Module.constants = [], code = [0, 13]\<rparr>) = Some (Inr (Number (Finite 0)))
   \<and> run (newVM \<lparr>Module.constants = [], code = [1, 13]\<rparr>) = Some (Inr (Number (Finite 1)))
   \<and> run (newVM \<lparr>Module.constants = [], code = [2, 13]\<rparr>) = Some (Inr (Number (Finite 2)))"
  by code_simp

section \<open>Identifiers and declarations\<close>

text \<open>
  Claim C6, amended. The compiler looks at the locals of the current depth only. If none
  has the name, compilation fails with the unknown-identifier error. Otherwise the
  operand of the emitted load is the index of the most recent match in the list of those
  locals in the order of their declaration, that is the length of the list minus one
  minus the position \<open>p\<close> of the match in the reverse-ordered view.
\<close>

theorem visitIdent_slot_is_declaration_index:
  "(case reverseViewPosition n st of
      None \<Rightarrow>
        (\<forall>l \<in> set (currentLocals st). Local.name l \<noteq> n)
        \<and> visit (Ident n) st = Inl (UnknownIdentifier n)
    | Some p \<Rightarrow>
        (let i = length (currentLocals st) - 1 - p
         in visit (Ident n) st = Inr (emit [opnum Op_load, i] st)
            \<and> p < length (currentLocals st)
            \<and> Local.name (currentLocals st ! i) = n
            \<and> (\<forall>j. i < j \<and> j < length (currentLocals st) \<longrightarrow>
                  Local.name (currentLocals st ! j) \<noteq> n)))"
proof (cases "reverseViewPosition n st")
  case None
  then have f: "findLocal n (currentLocals st) = None"
    by (simp add: findLocal_reverse reverseViewPosition_def)
  then have "\<forall>l \<in> set (currentLocals st). Local.name l \<noteq> n" by (simp add: findLocal_None)
  moreover from f have "visit (Ident n) st = Inl (UnknownIdentifier n)"
    by (simp add: visitIdent_def currentLocals_def)
  ultimately show ?thesis using None by simp
next
  case (Some p)
  then have f: "findLocal n (currentLocals st) = Some (length (currentLocals st) - 1 - p)"
    by (simp add: findLocal_reverse reverseViewPosition_def)
  from Some have "p < length (currentLocals st)"
    using firstIndex_less [of n "rev (currentLocals st)" p] by (simp add: reverseViewPosition_def)
  moreover from f have "visit (Ident n) st =
      Inr (emit [opnum Op_load, length (currentLocals st) - 1 - p] st)"
    by (simp add: visitIdent_def currentLocals_def)
  ultimately show ?thesis using Some findLocal_Some [OF f] by (simp add: Let_def)
qed

text \<open>
  Claim C6 as stated fails: after \<open>const x = 0  const y = 0\<close> the position of \<open>x\<close> in
  the reverse-ordered view is 1, and the operand of the load that the compiler emits
  for \<open>x\<close> is 0.
\<close>

theorem visitIdent_slot_counterexample:
  "compileBlock [ValDecl ''x'' (IntLit (Finite 0)), ValDecl ''y'' (IntLit (Finite 0))] newCompiler = Inr twoLocals
   \<and> reverseViewPosition ''x'' twoLocals = Some 1
   \<and> visit (Ident ''x'') twoLocals = Inr (emit [opnum Op_load, 0] twoLocals)"
  unfolding twoLocals_def
  by code_simp

text \<open>The theorem at the three names \<open>x\<close>, \<open>y\<close> and \<open>z\<close> in that state.\<close>

theorem visitIdent_slot_is_declaration_index_witness:
  "reverseViewPosition ''x'' twoLocals = Some 1
   \<and> visit (Ident ''x'') twoLocals = Inr (emit [opnum Op_load, 0] twoLocals)
   \<and> reverseViewPosition ''y'' twoLocals = Some 0
   \<and> visit (Ident ''y'') twoLocals = Inr (emit [opnum Op_load, 1] twoLocals)
   \<and> reverseViewPosition ''z'' twoLocals = None
   \<and> visit (Ident ''z'') twoLocals = Inl (UnknownIdentifier ''z'')"
proof -
  have x: "reverseViewPosition ''x'' twoLocals = Some 1"
    and y: "reverseViewPosition ''y'' twoLocals = Some 0"
    and z: "reverseViewPosition ''z'' twoLocals = None"
    and len: "length (currentLocals twoLocals) = 2"
    by (simp_all add: reverseViewPosition_def currentLocals_def twoLocals_def newCompiler_def)
  show ?thesis
    using visitIdent_slot_is_declaration_index [where n = "''x''" and st = twoLocals]
      visitIdent_slot_is_declaration_index [where n = "''y''" and st = twoLocals]
      visitIdent_slot_is_declaration_index [where n = "''z''" and st = twoLocals]
    by (simp add: x y z len Let_def)
qed



section \<open>A function that refers to itself\<close>




section \<open>The stack depth of a block\<close>




section \<open>The result of a run\<close>




end
